theory Spec2Isabelle
  imports Complex_Main
begin

section \<open>Strings\<close>

text \<open>
  The order-management screen (\<^verbatim>\<open>OrdersManagement\<close>) compares names and titles
  through \<^verbatim>\<open>normalize\<close>:

  \<^verbatim>\<open>const normalize = (s: string) =>
     s.normalize('NFD').replace(/\p{Diacritic}/gu, '').toLowerCase().trim();\<close>

  A string is a \<^typ>\<open>string\<close> whose characters are the code points U+0000 to U+00FF
  (the Basic Latin and Latin-1 Supplement blocks), which covers the Spanish and
  Portuguese names the screen handles. On this repertoire the three library calls
  are written out below from the Unicode character database and the ECMAScript
  definition of \<^verbatim>\<open>trim\<close>.
\<close>

definition code :: "char \<Rightarrow> nat" where
  "code c = of_char c"

text \<open>
  Canonical decomposition (NFD) followed by the removal of every character with
  the Unicode property \<^verbatim>\<open>Diacritic\<close>. An accented Latin-1 letter decomposes into
  its base letter and a combining mark of the range U+0300 to U+034E, which the
  replacement removes, so the letter is mapped to its base letter. The
  spacing characters U+005E, U+0060, U+00A8, U+00AF, U+00B4, U+00B7 and U+00B8 carry
  the property themselves and are removed.
\<close>

definition stripDiacritic :: "char \<Rightarrow> string" where
  "stripDiacritic c =
     (let n = code c in
      if n \<in> {94, 96, 168, 175, 180, 183, 184} then []
      else if 192 \<le> n \<and> n \<le> 197 then ''A''
      else if n = 199 then ''C''
      else if 200 \<le> n \<and> n \<le> 203 then ''E''
      else if 204 \<le> n \<and> n \<le> 207 then ''I''
      else if n = 209 then ''N''
      else if 210 \<le> n \<and> n \<le> 214 then ''O''
      else if 217 \<le> n \<and> n \<le> 220 then ''U''
      else if n = 221 then ''Y''
      else if 224 \<le> n \<and> n \<le> 229 then ''a''
      else if n = 231 then ''c''
      else if 232 \<le> n \<and> n \<le> 235 then ''e''
      else if 236 \<le> n \<and> n \<le> 239 then ''i''
      else if n = 241 then ''n''
      else if 242 \<le> n \<and> n \<le> 246 then ''o''
      else if 249 \<le> n \<and> n \<le> 252 then ''u''
      else if n = 253 \<or> n = 255 then ''y''
      else [c])"

definition stripDiacritics :: "string \<Rightarrow> string" where
  "stripDiacritics s = concat (map stripDiacritic s)"

text \<open>
  \<^verbatim>\<open>toLowerCase\<close>: the upper-case letters of the repertoire are U+0041 to U+005A and
  U+00C0 to U+00DE without U+00D7; each has its lower-case letter 32 places further.
\<close>

definition lowerChar :: "char \<Rightarrow> char" where
  "lowerChar c =
     (let n = code c in
      if (65 \<le> n \<and> n \<le> 90) \<or> (192 \<le> n \<and> n \<le> 222 \<and> n \<noteq> 215)
      then char_of (n + 32) else c)"

definition toLowerCase :: "string \<Rightarrow> string" where
  "toLowerCase s = map lowerChar s"

text \<open>
  \<^verbatim>\<open>trim\<close> removes white space and line terminators at both ends: U+0009 to
  U+000D, U+0020 and U+00A0 in this repertoire.
\<close>

definition isWhiteSpace :: "char \<Rightarrow> bool" where
  "isWhiteSpace c \<longleftrightarrow> code c \<in> {9, 10, 11, 12, 13, 32, 160}"

definition trim :: "string \<Rightarrow> string" where
  "trim s = rev (dropWhile isWhiteSpace (rev (dropWhile isWhiteSpace s)))"

definition normalize :: "string \<Rightarrow> string" where
  "normalize s = trim (toLowerCase (stripDiacritics s))"

text \<open>\<^verbatim>\<open>s.startsWith(p)\<close> and \<^verbatim>\<open>s.includes(p)\<close>.\<close>

fun startsWith :: "string \<Rightarrow> string \<Rightarrow> bool" where
  "startsWith s [] = True"
| "startsWith [] (p # ps) = False"
| "startsWith (c # cs) (p # ps) = (c = p \<and> startsWith cs ps)"

fun includesStr :: "string \<Rightarrow> string \<Rightarrow> bool" where
  "includesStr [] p = (p = [])"
| "includesStr (c # cs) p = (startsWith (c # cs) p \<or> includesStr cs p)"

text \<open>
  Truthiness of an optional string, and the operators \<^verbatim>\<open>a || b\<close> and \<^verbatim>\<open>a ?? b\<close>.
  A field that is absent, \<^verbatim>\<open>undefined\<close> or \<^verbatim>\<open>null\<close> is \<^const>\<open>None\<close>; the
  empty string is falsy as well.
\<close>

fun truthy :: "string option \<Rightarrow> bool" where
  "truthy None = False"
| "truthy (Some s) = (s \<noteq> [])"

definition orElse :: "string option \<Rightarrow> string option \<Rightarrow> string option" where
  "orElse a b = (if truthy a then a else b)"

definition orEmpty :: "string option \<Rightarrow> string" where
  "orEmpty a = (case a of None \<Rightarrow> [] | Some s \<Rightarrow> s)"

fun nullish :: "'a option \<Rightarrow> 'a option \<Rightarrow> 'a option" where
  "nullish None b = b"
| "nullish (Some x) b = Some x"

section \<open>Workflows\<close>

text \<open>
  \<^verbatim>\<open>interface WorkflowTask { id: string; title: string; done: boolean;
                             due?: string | null; note?: string }
  interface WorkflowCategory { id: string; name: string; tasks: WorkflowTask[] }\<close>

  The field \<^verbatim>\<open>due\<close> is absent, \<^verbatim>\<open>null\<close> or a string.
\<close>

datatype 'a nullable = Absent | Null | Val 'a

record task =
  task_id :: string
  title :: string
  task_done :: bool
  due :: "string nullable"
  task_note :: "string option"

record category =
  cat_id :: string
  cat_name :: string
  tasks :: "task list"

type_synonym workflow = "category list"

text \<open>
  \<^verbatim>\<open>const uid = () => Math.random().toString(36).slice(2) + Date.now().toString(36);\<close>

  The random source is a sequence of the strings the successive calls will
  return; a call takes the first and leaves the rest.
\<close>

type_synonym uidSource = "nat \<Rightarrow> string"

definition uid :: "uidSource \<Rightarrow> string \<times> uidSource" where
  "uid g = (g 0, \<lambda>k. g (Suc k))"

text \<open>
  \<^verbatim>\<open>JSON.parse(JSON.stringify(base))\<close> rebuilds every category and every task from
  its fields. All fields of the two interfaces survive the round trip: strings,
  booleans and \<^verbatim>\<open>null\<close> are kept, an absent field stays absent.
\<close>

definition cloneTask :: "task \<Rightarrow> task" where
  "cloneTask t = \<lparr>task_id = task_id t, title = title t, task_done = task_done t, due = due t, task_note = task_note t\<rparr>"

definition cloneCategory :: "category \<Rightarrow> category" where
  "cloneCategory c = \<lparr>cat_id = cat_id c, cat_name = cat_name c, tasks = map cloneTask (tasks c)\<rparr>"

definition jsonClone :: "workflow \<Rightarrow> workflow" where
  "jsonClone w = map cloneCategory w"

text \<open>The test \<^verbatim>\<open>normalize(c.name).includes('entrega')\<close>.\<close>

definition isDelivery :: "category \<Rightarrow> bool" where
  "isDelivery c \<longleftrightarrow> includesStr (normalize (cat_name c)) ''entrega''"

text \<open>\<^verbatim>\<open>findIndex\<close>: the first position that satisfies the test, if any.\<close>

fun findIndex :: "('a \<Rightarrow> bool) \<Rightarrow> 'a list \<Rightarrow> nat option" where
  "findIndex P [] = None"
| "findIndex P (x # xs) =
     (if P x then Some 0 else map_option Suc (findIndex P xs))"

text \<open>
  \<^verbatim>\<open>const ensureDeliveryTasks = (base: WorkflowCategory[], productNames: string[]) => {
    const cloned = JSON.parse(JSON.stringify(base)) as WorkflowCategory[];
    const findIdx = cloned.findIndex(c => normalize(c.name).includes('entrega'));
    const idx = findIdx >= 0 ? findIdx : cloned.length;
    if (findIdx < 0) cloned.push({ id: uid(), name: 'Entrega de productos', tasks: [] });
    const cat = cloned[idx];
    productNames.forEach(n => {
      const title = `Entregar ${n}`;
      if (!cat.tasks.some(t => normalize(t.title) === normalize(title))) {
        cat.tasks.push({ id: uid(), title, done: false });
      }
    });
    cloned[idx] = cat;
    return cloned;
  };\<close>

  \<open>hasTitle\<close> is the \<^verbatim>\<open>some\<close> test, \<open>pushDeliveryTasks\<close> the \<^verbatim>\<open>forEach\<close> loop over the
  product names, acting on the task list of \<^verbatim>\<open>cat\<close>.
\<close>

definition hasTitle :: "task list \<Rightarrow> string \<Rightarrow> bool" where
  "hasTitle ts ttl \<longleftrightarrow> list_ex (\<lambda>t. normalize (title t) = normalize ttl) ts"

definition deliveryTitle :: "string \<Rightarrow> string" where
  "deliveryTitle n = ''Entregar '' @ n"

definition newTask :: "string \<Rightarrow> string \<Rightarrow> task" where
  "newTask i ttl = \<lparr>task_id = i, title = ttl, task_done = False, due = Absent, task_note = None\<rparr>"

fun pushDeliveryTasks :: "string list \<Rightarrow> task list \<Rightarrow> uidSource \<Rightarrow> task list \<times> uidSource" where
  "pushDeliveryTasks [] ts g = (ts, g)"
| "pushDeliveryTasks (n # ns) ts g =
     (let ttl = deliveryTitle n in
      if \<not> hasTitle ts ttl
      then (case uid g of (i, g') \<Rightarrow> pushDeliveryTasks ns (ts @ [newTask i ttl]) g')
      else pushDeliveryTasks ns ts g)"

definition ensureDeliveryTasks :: "workflow \<Rightarrow> string list \<Rightarrow> uidSource \<Rightarrow> workflow \<times> uidSource" where
  "ensureDeliveryTasks base productNames g =
     (let cloned = jsonClone base in
      case findIndex isDelivery cloned of
        Some idx \<Rightarrow>
          (let cat = cloned ! idx;
               (ts, g') = pushDeliveryTasks productNames (tasks cat) g
           in (cloned[idx := cat\<lparr>tasks := ts\<rparr>], g'))
      | None \<Rightarrow>
          (let (i, g1) = uid g;
               cloned1 = cloned @ [\<lparr>cat_id = i, cat_name = ''Entrega de productos'', tasks = []\<rparr>];
               idx = length cloned;
               cat = cloned1 ! idx;
               (ts, g') = pushDeliveryTasks productNames (tasks cat) g1
           in (cloned1[idx := cat\<lparr>tasks := ts\<rparr>], g')))"

section \<open>\<open>ensureDeliveryTasks\<close> on a store of arrays\<close>

text \<open>
  \<^verbatim>\<open>ensureDeliveryTasks\<close> changes arrays in place: \<^verbatim>\<open>cloned.push(...)\<close>,
  \<^verbatim>\<open>cat.tasks.push(...)\<close> and \<^verbatim>\<open>cloned[idx] = cat\<close>. To see which arrays these are,
  the function is written a second time over a store in which every array is a
  cell with an address: a cell holds the tasks of a category, or the categories of
  a workflow, each category with its identifier, its name and the address of its
  tasks array. A new cell gets the next free address. The category and task
  objects themselves are values here: the function reads and creates them and
  never assigns to a field of one.
\<close>

type_synonym addr = nat

datatype cell = TaskArr "task list" | CatArr "(string \<times> string \<times> addr) list"

type_synonym store = "cell list"

definition alloc :: "store \<Rightarrow> cell \<Rightarrow> addr \<times> store" where
  "alloc s c = (length s, s @ [c])"

definition tasksAt :: "store \<Rightarrow> addr \<Rightarrow> task list option" where
  "tasksAt s a =
     (if a < length s then (case s ! a of TaskArr ts \<Rightarrow> Some ts | CatArr cats \<Rightarrow> None) else None)"

definition catsAt :: "store \<Rightarrow> addr \<Rightarrow> (string \<times> string \<times> addr) list option" where
  "catsAt s a =
     (if a < length s then (case s ! a of CatArr cats \<Rightarrow> Some cats | TaskArr ts \<Rightarrow> None) else None)"

text \<open>
  \<^verbatim>\<open>JSON.stringify(base)\<close> reads the workflow that the array at an address holds; it
  is \<^const>\<open>None\<close> when the address holds no workflow, which the parameter type
  excludes.
\<close>

definition readCategory :: "store \<Rightarrow> string \<times> string \<times> addr \<Rightarrow> category option" where
  "readCategory s = (\<lambda>(i, n, ta).
     map_option (\<lambda>ts. \<lparr>cat_id = i, cat_name = n, tasks = ts\<rparr>) (tasksAt s ta))"

definition readWorkflow :: "store \<Rightarrow> addr \<Rightarrow> workflow option" where
  "readWorkflow s a =
     (case catsAt s a of None \<Rightarrow> None | Some cats \<Rightarrow> those (map (readCategory s) cats))"

text \<open>\<^verbatim>\<open>JSON.parse\<close> builds new arrays for what it reads.\<close>

fun parseCategories :: "store \<Rightarrow> workflow \<Rightarrow> (string \<times> string \<times> addr) list \<times> store" where
  "parseCategories s [] = ([], s)"
| "parseCategories s (c # cs) =
     (case alloc s (TaskArr (map cloneTask (tasks c))) of
        (ta, s1) \<Rightarrow>
          (case parseCategories s1 cs of
             (rest, s2) \<Rightarrow> ((cat_id c, cat_name c, ta) # rest, s2)))"

definition parseWorkflow :: "store \<Rightarrow> workflow \<Rightarrow> addr \<times> store" where
  "parseWorkflow s w = (case parseCategories s w of (cats, s1) \<Rightarrow> alloc s1 (CatArr cats))"

text \<open>
  The loop over the product names, on the tasks array at the address \<open>ta\<close>
  (\<^verbatim>\<open>cat.tasks\<close>).
\<close>

fun pushLoop :: "string list \<Rightarrow> addr \<Rightarrow> store \<Rightarrow> uidSource \<Rightarrow> store \<times> uidSource" where
  "pushLoop [] ta s g = (s, g)"
| "pushLoop (n # ns) ta s g =
     (let ttl = deliveryTitle n;
          ts = (case tasksAt s ta of Some ts \<Rightarrow> ts | None \<Rightarrow> [])
      in if \<not> hasTitle ts ttl
         then (case uid g of (i, g') \<Rightarrow> pushLoop ns ta (s[ta := TaskArr (ts @ [newTask i ttl])]) g')
         else pushLoop ns ta s g)"

text \<open>
  The function: it returns the address of \<^verbatim>\<open>cloned\<close>, the store and the identifier
  source.
\<close>

definition isDeliveryEntry :: "string \<times> string \<times> addr \<Rightarrow> bool" where
  "isDeliveryEntry = (\<lambda>(i, n, ta). includesStr (normalize n) ''entrega'')"

definition ensureDeliveryTasksOn ::
  "store \<Rightarrow> addr \<Rightarrow> string list \<Rightarrow> uidSource \<Rightarrow> (addr \<times> store \<times> uidSource) option" where
  "ensureDeliveryTasksOn s base productNames g =
     (case readWorkflow s base of
        None \<Rightarrow> None
      | Some w \<Rightarrow>
          (case parseWorkflow s w of
             (cloned, s1) \<Rightarrow>
               (let cats = (case catsAt s1 cloned of Some cs \<Rightarrow> cs | None \<Rightarrow> []) in
                case findIndex isDeliveryEntry cats of
                  Some idx \<Rightarrow>
                    (let cat = cats ! idx in
                     case pushLoop productNames (snd (snd cat)) s1 g of
                       (s2, g') \<Rightarrow>
                         (let cats2 = (case catsAt s2 cloned of Some cs \<Rightarrow> cs | None \<Rightarrow> [])
                          in Some (cloned, s2[cloned := CatArr (cats2[idx := cat])], g')))
                | None \<Rightarrow>
                    (case uid g of
                       (i, g1) \<Rightarrow>
                         (case alloc s1 (TaskArr []) of
                            (ta, s2) \<Rightarrow>
                              (let cat = (i, ''Entrega de productos'', ta);
                                   s3 = s2[cloned := CatArr (cats @ [cat])];
                                   idx = length cats
                               in case pushLoop productNames ta s3 g1 of
                                    (s4, g') \<Rightarrow>
                                      (let cats4 = (case catsAt s4 cloned of Some cs \<Rightarrow> cs | None \<Rightarrow> [])
                                       in Some (cloned, s4[cloned := CatArr (cats4[idx := cat])], g'))))))))"

section \<open>Orders, contracts and the display reconciler\<close>

text \<open>
  A JavaScript \<^verbatim>\<open>number\<close> is a rational here: quantities and prices are passed
  through, multiplied and added exactly; the rounding of binary floating point and
  the value \<^verbatim>\<open>NaN\<close> are outside the model. \<^verbatim>\<open>Number(x)\<close> of a number is the
  number itself.

  \<^verbatim>\<open>interface OrderLineItem { product_id?: string; productId?: string; name?: string;
                            qty?: number; quantity?: number; price?: number; total?: number }\<close>

  The items that the loader builds for a new order document carry one property
  more, \<^verbatim>\<open>image_url\<close>, which is \<^const>\<open>Absent\<close> when its value is \<^verbatim>\<open>undefined\<close>.
\<close>

record orderLineItem =
  li_product_id :: "string option"
  li_productId :: "string option"
  li_name :: "string option"
  li_qty :: "rat option"
  li_quantity :: "rat option"
  li_price :: "rat option"
  li_total :: "rat option"
  li_image_url :: "string nullable"

text \<open>
  A purchased item of a contract (\<^verbatim>\<open>storeItems[]\<close>, untyped in the source), with the
  fields the screen reads.
\<close>

record storeItem =
  si_name :: "string option"
  si_productName :: "string option"
  si_title :: "string option"
  si_quantity :: "rat option"
  si_qty :: "rat option"
  si_price :: "rat option"
  si_total :: "rat option"
  si_image_url :: "string nullable"

text \<open>
  A contract document with its identifier (\<^verbatim>\<open>{ id: d.id, ...d.data() }\<close>).
  \<open>c_storeItems\<close> is \<^const>\<open>None\<close> when the field is no array.
\<close>

record contract =
  c_id :: string
  c_clientName :: "string option"
  c_client_name :: "string option"
  c_clientEmail :: "string option"
  c_client_email :: "string option"
  c_storeItems :: "storeItem list option"
  c_workflow :: "workflow option"
  c_depositPaid :: "bool option"
  c_travelFee :: "rat option"
  c_paymentMethod :: "string option"
  c_contractDate :: "string option"
  c_createdAt :: "string option"

text \<open>
  An order as the screen holds it: the fields of \<^verbatim>\<open>interface OrderItem\<close> that the
  modelled functions read, and the fields of the order documents that they read or
  write beside them (\<^verbatim>\<open>clientName\<close>, \<^verbatim>\<open>clientEmail\<close>, \<^verbatim>\<open>totalAmount\<close>,
  \<^verbatim>\<open>createdAt\<close>, \<^verbatim>\<open>paymentMethod\<close>, \<^verbatim>\<open>contract_id\<close>, \<^verbatim>\<open>contract\<close>,
  \<^verbatim>\<open>depositPaid\<close>, \<^verbatim>\<open>deliveredAt\<close>). The thumbnail, which only the rendering reads,
  is left out.
\<close>

record order =
  o_id :: string
  o_customer_name :: "string option"
  o_customer_email :: "string option"
  o_clientName :: "string option"
  o_clientEmail :: "string option"
  o_paymentMethod :: "string option"
  o_items :: "orderLineItem list option"
  o_total :: "rat option"
  o_totalAmount :: "rat option"
  o_created_at :: "string option"
  o_createdAt :: "string option"
  o_status :: "string option"
  o_workflow :: "workflow option"
  o_contractId :: "string option"
  o_contract_id :: "string option"
  o_contract :: "string option"
  o_depositPaid :: "bool option"
  o_deliveredAt :: "string nullable"

text \<open>Objects with every optional field absent, from which the object literals of the source are built.\<close>

definition emptyLineItem :: orderLineItem where
  "emptyLineItem =
     \<lparr>li_product_id = None, li_productId = None, li_name = None, li_qty = None,
      li_quantity = None, li_price = None, li_total = None, li_image_url = Absent\<rparr>"

definition emptyStoreItem :: storeItem where
  "emptyStoreItem =
     \<lparr>si_name = None, si_productName = None, si_title = None, si_quantity = None,
      si_qty = None, si_price = None, si_total = None, si_image_url = Absent\<rparr>"

definition emptyContract :: "string \<Rightarrow> contract" where
  "emptyContract i =
     \<lparr>c_id = i, c_clientName = None, c_client_name = None, c_clientEmail = None,
      c_client_email = None, c_storeItems = None, c_workflow = None, c_depositPaid = None,
      c_travelFee = None, c_paymentMethod = None, c_contractDate = None, c_createdAt = None\<rparr>"

definition emptyOrder :: "string \<Rightarrow> order" where
  "emptyOrder i =
     \<lparr>o_id = i, o_customer_name = None, o_customer_email = None, o_clientName = None,
      o_clientEmail = None, o_paymentMethod = None, o_items = None, o_total = None,
      o_totalAmount = None, o_created_at = None, o_createdAt = None, o_status = None,
      o_workflow = None, o_contractId = None, o_contract_id = None, o_contract = None,
      o_depositPaid = None, o_deliveredAt = Absent\<rparr>"

text \<open>\<^verbatim>\<open>Number(a ?? d)\<close> for an optional number \<open>a\<close> and a default \<open>d\<close>.\<close>

definition numOr :: "rat option \<Rightarrow> rat \<Rightarrow> rat" where
  "numOr a d = (case a of Some x \<Rightarrow> x | None \<Rightarrow> d)"

text \<open>\<^verbatim>\<open>it.name || it.product_id || it.productId || ''\<close>\<close>

definition itemKey :: "orderLineItem \<Rightarrow> string" where
  "itemKey it = orEmpty (orElse (orElse (li_name it) (li_product_id it)) (li_productId it))"

text \<open>The object literal \<^verbatim>\<open>{ name, qty, price, total } as OrderLineItem\<close>.\<close>

definition displayRow :: "string \<Rightarrow> rat \<Rightarrow> rat \<Rightarrow> rat \<Rightarrow> orderLineItem" where
  "displayRow n q p t =
     \<lparr>li_product_id = None, li_productId = None, li_name = Some n, li_qty = Some q,
      li_quantity = None, li_price = Some p, li_total = Some t, li_image_url = Absent\<rparr>"

text \<open>
  The contracts lookups of the screen: \<^verbatim>\<open>contractsMap\<close> by identifier, as the list of
  its entries in the order of \<^verbatim>\<open>Object.values\<close>, and \<^verbatim>\<open>contractsByEmail\<close>.

  \<^verbatim>\<open>let c = o.contractId ? contractsMap[o.contractId] : null;
  if (!c && o.customer_email) {
    const key = String(o.customer_email).toLowerCase().trim();
    c = contractsByEmail[key] || Object.values(contractsMap).find((x: any) =>
          String((x.clientEmail || x.client_email || '')).toLowerCase().trim() === key) || null;
  }\<close>
\<close>

type_synonym contractsMap = "(string \<times> contract) list"
type_synonym contractsByEmail = "string \<Rightarrow> contract option"

definition emailKey :: "string \<Rightarrow> string" where
  "emailKey s = trim (toLowerCase s)"

definition contractEmailKey :: "contract \<Rightarrow> string" where
  "contractEmailKey x = emailKey (orEmpty (orElse (c_clientEmail x) (c_client_email x)))"

definition resolveContract :: "contractsMap \<Rightarrow> contractsByEmail \<Rightarrow> order \<Rightarrow> contract option" where
  "resolveContract cm ce ord =
     (let c = (if truthy (o_contractId ord) then map_of cm (orEmpty (o_contractId ord)) else None) in
      if c = None \<and> truthy (o_customer_email ord) then
        (let key = emailKey (orEmpty (o_customer_email ord)) in
         case ce key of
           Some c1 \<Rightarrow> Some c1
         | None \<Rightarrow> find (\<lambda>x. contractEmailKey x = key) (map snd cm))
      else c)"

text \<open>
  The canonical contract items:

  \<^verbatim>\<open>const contractItems = (c.storeItems || []).map((si: any) => ({
    name: si.name || si.productName || si.title || '',
    quantity: Number(si.quantity ?? si.qty ?? 1),
    price: Number(si.price ?? 0),
    total: si.total != null ? Number(si.total)
                            : Number(si.price ?? 0) * Number(si.quantity ?? si.qty ?? 1),
  }));\<close>
\<close>

record contractItem =
  ci_name :: string
  ci_quantity :: rat
  ci_price :: rat
  ci_total :: rat

definition canonicalItem :: "storeItem \<Rightarrow> contractItem" where
  "canonicalItem si =
     \<lparr>ci_name = orEmpty (orElse (orElse (si_name si) (si_productName si)) (si_title si)),
      ci_quantity = numOr (nullish (si_quantity si) (si_qty si)) 1,
      ci_price = numOr (si_price si) 0,
      ci_total = (case si_total si of
                    Some t \<Rightarrow> t
                  | None \<Rightarrow> numOr (si_price si) 0 * numOr (nullish (si_quantity si) (si_qty si)) 1)\<rparr>"

text \<open>
  \<^verbatim>\<open>const merged = contractItems.map(ci => {
    const match = orderItems.find(oi =>
        norm(oi.name || oi.product_id || oi.productId || '') === norm(ci.name));
    if (match) {
      const qty = Number(match.qty ?? match.quantity ?? ci.quantity);
      const price = Number(match.price ?? match.price ?? ci.price);
      const total = match.total != null ? Number(match.total) : price * qty;
      return { name: match.name || ci.name, qty, price, total } as OrderLineItem;
    }
    return { name: ci.name, qty: ci.quantity, price: ci.price, total: ci.total } as OrderLineItem;
  });\<close>

  with \<^verbatim>\<open>norm = (s) => normalize(String(s || ''))\<close>.
\<close>

definition matchFor :: "orderLineItem list \<Rightarrow> contractItem \<Rightarrow> orderLineItem option" where
  "matchFor orderItems ci =
     find (\<lambda>oi. normalize (itemKey oi) = normalize (ci_name ci)) orderItems"

definition mergedRow :: "orderLineItem list \<Rightarrow> contractItem \<Rightarrow> orderLineItem" where
  "mergedRow orderItems ci =
     (case matchFor orderItems ci of
        Some m \<Rightarrow>
          (let qty = numOr (nullish (li_qty m) (li_quantity m)) (ci_quantity ci);
               price = numOr (nullish (li_price m) (li_price m)) (ci_price ci);
               total = (case li_total m of Some t \<Rightarrow> t | None \<Rightarrow> price * qty)
           in displayRow (if truthy (li_name m) then orEmpty (li_name m) else ci_name ci)
                qty price total)
      | None \<Rightarrow> displayRow (ci_name ci) (ci_quantity ci) (ci_price ci) (ci_total ci))"

text \<open>
  The mapping applied to the extra items and, when no contract with store items is
  found, to all order items:

  \<^verbatim>\<open>({ name: e.name || e.product_id || e.productId || '',
      qty: Number(e.qty ?? e.quantity ?? 1),
      price: Number(e.price ?? 0),
      total: e.total != null ? Number(e.total)
                             : Number(e.price ?? 0) * Number(e.qty ?? e.quantity ?? 1) })\<close>
\<close>

definition normalizedRow :: "orderLineItem \<Rightarrow> orderLineItem" where
  "normalizedRow e =
     displayRow (itemKey e)
       (numOr (nullish (li_qty e) (li_quantity e)) 1)
       (numOr (li_price e) 0)
       (case li_total e of
          Some t \<Rightarrow> t
        | None \<Rightarrow> numOr (li_price e) 0 * numOr (nullish (li_qty e) (li_quantity e)) 1)"

text \<open>
  \<^verbatim>\<open>const contractNames = new Set(contractItems.map(ci => norm(ci.name)));
  const extras = orderItems.filter(oi =>
      !contractNames.has(norm(oi.name || oi.product_id || oi.productId || ''))).map(...)\<close>
\<close>

definition contractNames :: "contractItem list \<Rightarrow> string set" where
  "contractNames citems = set (map (\<lambda>ci. normalize (ci_name ci)) citems)"

definition extras :: "contractItem list \<Rightarrow> orderLineItem list \<Rightarrow> orderLineItem list" where
  "extras citems orderItems =
     map normalizedRow (filter (\<lambda>oi. normalize (itemKey oi) \<notin> contractNames citems) orderItems)"

text \<open>
  \<^verbatim>\<open>getDisplayItems(o)\<close>, with the two lookups it reads from the component state as
  arguments. Its first line, \<^verbatim>\<open>if (!o) return o.items || []\<close>, concerns a missing
  order, which the parameter type excludes. \<open>orderItemsOf\<close> is
  \<^verbatim>\<open>Array.isArray(o.items) ? o.items : []\<close>.
\<close>

definition orderItemsOf :: "order \<Rightarrow> orderLineItem list" where
  "orderItemsOf ord = (case o_items ord of Some its \<Rightarrow> its | None \<Rightarrow> [])"

definition getDisplayItems :: "contractsMap \<Rightarrow> contractsByEmail \<Rightarrow> order \<Rightarrow> orderLineItem list" where
  "getDisplayItems cm ce ord =
     (let c = resolveContract cm ce ord;
          orderItems = orderItemsOf ord;
          storeItems = (case c of Some c1 \<Rightarrow> (case c_storeItems c1 of Some sis \<Rightarrow> sis | None \<Rightarrow> [])
                                | None \<Rightarrow> [])
      in if storeItems \<noteq> [] then
           (let contractItems = map canonicalItem storeItems
            in map (mergedRow orderItems) contractItems @ extras contractItems orderItems)
         else map normalizedRow orderItems)"

section \<open>The database and the order store loader\<close>

text \<open>
  The two collections the screen works on, each as the list of its documents (a
  document with its identifier). The database is a collaborator outside the
  repository; the model keeps what it is given and answers every call, with two
  exceptions: \<^verbatim>\<open>updateDoc\<close> and \<^verbatim>\<open>getDoc\<close> distinguish a missing document, and
  \<^verbatim>\<open>addDoc\<close> refuses data that holds a property without a value. Any other
  rejected or failed call of the real service is outside the model.
\<close>

record database =
  ordersCol :: "order list"
  contractsCol :: "contract list"

text \<open>
  What the surroundings of a call supply: the connectivity flag
  \<^verbatim>\<open>navigator.onLine\<close>, the value of \<^verbatim>\<open>new Date().toISOString()\<close>, and the answers
  of the two ordered queries, whose ordering semantics belong to the database:
  \<open>ordersQuery\<close> maps the orders collection to the list that the first block of
  \<^verbatim>\<open>fetchOrders\<close> leaves in \<^verbatim>\<open>items\<close> (the query ordered by \<^verbatim>\<open>created_at\<close>, or its
  fallback), \<open>contractsQuery\<close> the contracts collection to \<^verbatim>\<open>contractsList\<close> (the
  query ordered by \<^verbatim>\<open>createdAt\<close>).
\<close>

record env =
  online :: bool
  now :: string
  ordersQuery :: "order list \<Rightarrow> order list"
  contractsQuery :: "contract list \<Rightarrow> contract list"

text \<open>\<^verbatim>\<open>getDoc(doc(db, 'contracts', id))\<close> and \<^verbatim>\<open>getDoc(doc(db, 'orders', id))\<close>.\<close>

definition getContract :: "database \<Rightarrow> string \<Rightarrow> contract option" where
  "getContract db i = find (\<lambda>c. c_id c = i) (contractsCol db)"

definition getOrder :: "database \<Rightarrow> string \<Rightarrow> order option" where
  "getOrder db i = find (\<lambda>d. o_id d = i) (ordersCol db)"

text \<open>
  \<^verbatim>\<open>updateDoc\<close> changes the fields of the document with the given identifier and
  fails (\<^const>\<open>None\<close>) when there is no such document.
\<close>

definition updateOrder :: "database \<Rightarrow> string \<Rightarrow> (order \<Rightarrow> order) \<Rightarrow> database option" where
  "updateOrder db i f =
     (if list_ex (\<lambda>d. o_id d = i) (ordersCol db)
      then Some (db\<lparr>ordersCol := map (\<lambda>d. if o_id d = i then f d else d) (ordersCol db)\<rparr>)
      else None)"

definition updateContract :: "database \<Rightarrow> string \<Rightarrow> (contract \<Rightarrow> contract) \<Rightarrow> database option" where
  "updateContract db i f =
     (if list_ex (\<lambda>c. c_id c = i) (contractsCol db)
      then Some (db\<lparr>contractsCol := map (\<lambda>c. if c_id c = i then f c else c) (contractsCol db)\<rparr>)
      else None)"

text \<open>
  \<^verbatim>\<open>addDoc(collection(db, 'orders'), orderData)\<close> stores the data under a fresh
  identifier, drawn from the same kind of source as \<^verbatim>\<open>uid()\<close>. The client is
  \<^verbatim>\<open>export const db = getFirestore(app)\<close>, with the settings it comes with, and
  this client checks the data before it sends them: it throws when a property has
  the value \<^verbatim>\<open>undefined\<close> (\<^verbatim>\<open>ignoreUndefinedProperties\<close> is not set anywhere).
  Then nothing is stored and the call gives \<^const>\<open>None\<close>.

  The only caller is the loader, with the \<^verbatim>\<open>orderData\<close> it has built. There every
  property has a value (strings with the fallback \<^verbatim>\<open>|| ''\<close>, numbers, the
  identifier of the contract, a date with the fallback \<^verbatim>\<open>new Date().toISOString()\<close>)
  with one exception: each item has the property \<^verbatim>\<open>image_url: si.image_url\<close>, which
  is \<^verbatim>\<open>undefined\<close> for a store item without an image.
\<close>

definition undefinedProperty :: "order \<Rightarrow> bool" where
  "undefinedProperty orderData \<longleftrightarrow> list_ex (\<lambda>it. li_image_url it = Absent) (orderItemsOf orderData)"

definition addOrder ::
  "database \<Rightarrow> order \<Rightarrow> uidSource \<Rightarrow> (string \<times> database \<times> uidSource) option" where
  "addOrder db orderData g =
     (if undefinedProperty orderData then None
      else (case uid g of
              (i, g') \<Rightarrow> Some (i, db\<lparr>ordersCol := ordersCol db @ [orderData\<lparr>o_id := i\<rparr>]\<rparr>, g')))"

text \<open>\<^verbatim>\<open>query(collection(db, 'orders'), where('contractId', '==', c.id))\<close>\<close>

definition ordersOfContract :: "database \<Rightarrow> string \<Rightarrow> order list" where
  "ordersOfContract db i = filter (\<lambda>d. o_contractId d = Some i) (ordersCol db)"

text \<open>
  \<^verbatim>\<open>const existsInItems = items.some(it =>
     String(it.contractId || it.contract_id || it.contract).replace(/^contract-/, '')
       === String(c.id));\<close>

  When none of the three fields is truthy the operand is the last of them;
  \<^verbatim>\<open>String\<close> of an absent field is \<^verbatim>\<open>"undefined"\<close>.
\<close>

definition stringOf :: "string option \<Rightarrow> string" where
  "stringOf a = (case a of None \<Rightarrow> ''undefined'' | Some s \<Rightarrow> s)"

definition stripContractPrefix :: "string \<Rightarrow> string" where
  "stripContractPrefix s = (if startsWith s ''contract-'' then drop 9 s else s)"

definition contractRef :: "order \<Rightarrow> string" where
  "contractRef it =
     stripContractPrefix (stringOf (orElse (orElse (o_contractId it) (o_contract_id it)) (o_contract it)))"

definition existsInItems :: "order list \<Rightarrow> contract \<Rightarrow> bool" where
  "existsInItems items c \<longleftrightarrow> list_ex (\<lambda>it. contractRef it = c_id c) items"

text \<open>\<^verbatim>\<open>Number(a ?? b ?? 1) || 1\<close>: a quantity of zero counts as one.\<close>

definition qtyOr1 :: "rat option \<Rightarrow> rat" where
  "qtyOr1 a = (if numOr a 1 = 0 then 1 else numOr a 1)"

text \<open>
  The aggregation of the orders found for a contract:

  \<^verbatim>\<open>its.forEach((it: any) => {
    const qty = Number(it.quantity ?? it.qty ?? 1) || 1;
    const price = Number(it.price ?? 0) || 0;
    const total = it.total != null ? Number(it.total) : price * qty;
    aggItems.push({ name: it.name || it.product_id || '', qty: qty, price, total });
    totalAmt += total; ...
  });\<close>
\<close>

definition aggItem :: "orderLineItem \<Rightarrow> orderLineItem" where
  "aggItem it =
     (let qty = qtyOr1 (nullish (li_quantity it) (li_qty it));
          price = numOr (li_price it) 0;
          total = (case li_total it of Some t \<Rightarrow> t | None \<Rightarrow> price * qty)
      in displayRow (orEmpty (orElse (li_name it) (li_product_id it))) qty price total)"

definition aggItems :: "order list \<Rightarrow> orderLineItem list" where
  "aggItems existingOrders = concat (map (\<lambda>eo. map aggItem (orderItemsOf eo)) existingOrders)"

definition sumTotals :: "orderLineItem list \<Rightarrow> rat" where
  "sumTotals its = foldl (\<lambda>s it. s + numOr (li_total it) 0) 0 its"

text \<open>
  \<^verbatim>\<open>generatedFromContracts.push({
    id: existingOrders[0].id,
    customer_name: c.clientName || c.client_name || '',
    customer_email: c.clientEmail || c.client_email || '',
    items: aggItems, total: totalAmt, created_at: createdAt,
    status: existingOrders[0].status || 'pendiente',
    workflow: c.workflow || undefined, contractId: c.id, thumbnail } as OrderItem);\<close>

  with \<^verbatim>\<open>createdAt = existingOrders[0].createdAt || existingOrders[0].created_at
  || new Date().toISOString()\<close>. The list \<open>existingOrders\<close> is not empty where this
  is used; its first element is \<open>eo\<close>.
\<close>

definition aggregatedOrder :: "env \<Rightarrow> contract \<Rightarrow> order \<Rightarrow> order list \<Rightarrow> order" where
  "aggregatedOrder e c eo existingOrders =
     (emptyOrder (o_id eo))
       \<lparr>o_customer_name := Some (orEmpty (orElse (c_clientName c) (c_client_name c))),
        o_customer_email := Some (orEmpty (orElse (c_clientEmail c) (c_client_email c))),
        o_items := Some (aggItems existingOrders),
        o_total := Some (sumTotals (aggItems existingOrders)),
        o_created_at := Some (orEmpty (orElse (orElse (o_createdAt eo) (o_created_at eo)) (Some (now e)))),
        o_status := Some (orEmpty (orElse (o_status eo) (Some ''pendiente''))),
        o_workflow := c_workflow c,
        o_contractId := Some (c_id c)\<rparr>"

text \<open>
  The order created for a contract without orders:

  \<^verbatim>\<open>const itemsForOrder = storeItems.map((si: any) => {
    const qty = Number(si.quantity ?? si.qty ?? 1) || 1;
    const price = Number(si.price ?? 0) || 0;
    const total = si.total != null ? Number(si.total) : price * qty;
    return { name: si.name || si.title || '', quantity: qty, price, total, image_url: si.image_url };
  });
  const totalAmountForContract =
    itemsForOrder.reduce((s, it) => s + Number(it.total || 0), 0) + Number(c.travelFee || 0);
  const orderData: any = {
    clientName: c.clientName || c.client_name || '',
    clientEmail: c.clientEmail || c.client_email || '',
    items: itemsForOrder, totalAmount: totalAmountForContract, status: 'pending',
    paymentMethod: c.paymentMethod || '', contractId: c.id,
    createdAt: c.contractDate || c.createdAt || new Date().toISOString() };\<close>
\<close>

definition itemForOrder :: "storeItem \<Rightarrow> orderLineItem" where
  "itemForOrder si =
     (let qty = qtyOr1 (nullish (si_quantity si) (si_qty si));
          price = numOr (si_price si) 0;
          total = (case si_total si of Some t \<Rightarrow> t | None \<Rightarrow> price * qty)
      in emptyLineItem\<lparr>li_name := Some (orEmpty (orElse (si_name si) (si_title si))),
                        li_quantity := Some qty, li_price := Some price, li_total := Some total,
                        li_image_url := si_image_url si\<rparr>)"

definition orderData :: "env \<Rightarrow> contract \<Rightarrow> storeItem list \<Rightarrow> order" where
  "orderData e c storeItems =
     (emptyOrder [])
       \<lparr>o_clientName := Some (orEmpty (orElse (c_clientName c) (c_client_name c))),
        o_clientEmail := Some (orEmpty (orElse (c_clientEmail c) (c_client_email c))),
        o_items := Some (map itemForOrder storeItems),
        o_totalAmount := Some (sumTotals (map itemForOrder storeItems) + numOr (c_travelFee c) 0),
        o_status := Some ''pending'',
        o_paymentMethod := Some (orEmpty (c_paymentMethod c)),
        o_contractId := Some (c_id c),
        o_createdAt := Some (orEmpty (orElse (orElse (c_contractDate c) (c_createdAt c)) (Some (now e))))\<rparr>"

text \<open>
  The loop \<^verbatim>\<open>for (const c of contractsList)\<close> of \<^verbatim>\<open>fetchOrders\<close>, with the database,
  the identifier source and \<^verbatim>\<open>generatedFromContracts\<close> as its state:

  \<^verbatim>\<open>const storeItems = Array.isArray(c.storeItems) ? c.storeItems : [];
  if (!storeItems.length) continue;
  const existsInItems = ...;
  if (existsInItems) continue;
  let existingOrders: any[] = [];
  ... existingOrders = existingSnap.docs.map(...) ...
  if (existingOrders.length > 0) { ... generatedFromContracts.push(...); continue; }
  ...
  try {
    const refDoc = await addDoc(collection(db, 'orders'), orderData);
    generatedFromContracts.push({ id: refDoc.id, ...orderData, thumbnail: ... } as OrderItem);
  } catch (e) {
    console.warn('Failed to create aggregated order for contract', c.id, e);
  }\<close>

  When \<^verbatim>\<open>addDoc\<close> throws, the loop goes on with the next contract and nothing is
  added for this one.
\<close>

definition storeItemsOf :: "contract \<Rightarrow> storeItem list" where
  "storeItemsOf c = (case c_storeItems c of Some sis \<Rightarrow> sis | None \<Rightarrow> [])"

fun contractsLoop ::
  "env \<Rightarrow> order list \<Rightarrow> contract list \<Rightarrow> database \<Rightarrow> uidSource \<Rightarrow> order list
     \<Rightarrow> order list \<times> database \<times> uidSource" where
  "contractsLoop e items [] db g generated = (generated, db, g)"
| "contractsLoop e items (c # cs) db g generated =
     (if storeItemsOf c = [] then contractsLoop e items cs db g generated
      else if existsInItems items c then contractsLoop e items cs db g generated
      else (case ordersOfContract db (c_id c) of
              eo # rest \<Rightarrow>
                contractsLoop e items cs db g
                  (generated @ [aggregatedOrder e c eo (eo # rest)])
            | [] \<Rightarrow>
                (case addOrder db (orderData e c (storeItemsOf c)) g of
                   Some (i, db', g') \<Rightarrow>
                     contractsLoop e items cs db' g'
                       (generated @ [(orderData e c (storeItemsOf c))\<lparr>o_id := i\<rparr>])
                 | None \<Rightarrow> contractsLoop e items cs db g generated)))"

text \<open>
  \<^verbatim>\<open>fetchOrders\<close>: the list it passes to \<^verbatim>\<open>setOrders\<close>, the database and the
  identifier source after the call. The products lookup, which only serves the
  thumbnails, is left out.

  \<^verbatim>\<open>if (typeof navigator !== 'undefined' && !navigator.onLine) { setOrders([]); return; }
  ...
  if (generatedFromContracts.length > 0) items = [...(items || []), ...generatedFromContracts];
  ...
  setOrders(items);\<close>
\<close>

definition fetchOrders :: "env \<Rightarrow> database \<Rightarrow> uidSource \<Rightarrow> order list \<times> database \<times> uidSource" where
  "fetchOrders e db g =
     (if \<not> online e then ([], db, g)
      else (let items = ordersQuery e (ordersCol db);
                contractsList = contractsQuery e (contractsCol db)
            in case contractsLoop e items contractsList db g [] of
                 (generated, db', g') \<Rightarrow> (items @ generated, db', g')))"

text \<open>
  The status filter and the counts of the screen:

  \<^verbatim>\<open>export type OrderStatus = 'pendiente' | 'procesando' | 'completado';
  const [statusFilter, setStatusFilter] = useState<'todas' | OrderStatus>('todas');

  const filtered = useMemo(() => {
    return orders.filter(o => {
      const byStatus = statusFilter === 'todas' ? true : (o.status === statusFilter);
      const s = search.trim().toLowerCase();
      const bySearch = s ? ((o.customer_name || '').toLowerCase().includes(s)
                         || (o.customer_email || '').toLowerCase().includes(s)) : true;
      return byStatus && bySearch;
    });
  }, [orders, statusFilter, search]);

  const counts = useMemo(() => ({
    todas: orders.length,
    pendiente: orders.filter(o => o.status === 'pendiente').length,
    procesando: orders.filter(o => o.status === 'procesando').length,
    completado: orders.filter(o => o.status === 'completado').length,
  }), [orders]);\<close>
\<close>

datatype OrderStatus = Pendiente | Procesando | Completado

datatype statusFilter = Todas | Status OrderStatus

fun statusString :: "OrderStatus \<Rightarrow> string" where
  "statusString Pendiente = ''pendiente''"
| "statusString Procesando = ''procesando''"
| "statusString Completado = ''completado''"

definition byStatus :: "statusFilter \<Rightarrow> order \<Rightarrow> bool" where
  "byStatus sf ord = (case sf of Todas \<Rightarrow> True | Status s \<Rightarrow> o_status ord = Some (statusString s))"

definition bySearch :: "string \<Rightarrow> order \<Rightarrow> bool" where
  "bySearch search ord =
     (let s = toLowerCase (trim search)
      in if s \<noteq> [] then includesStr (toLowerCase (orEmpty (o_customer_name ord))) s
                        \<or> includesStr (toLowerCase (orEmpty (o_customer_email ord))) s
         else True)"

definition filtered :: "order list \<Rightarrow> statusFilter \<Rightarrow> string \<Rightarrow> order list" where
  "filtered orders sf search = filter (\<lambda>ord. byStatus sf ord \<and> bySearch search ord) orders"

record counts =
  todas :: nat
  pendiente :: nat
  procesando :: nat
  completado :: nat

definition countStatus :: "order list \<Rightarrow> string \<Rightarrow> nat" where
  "countStatus orders s = length (filter (\<lambda>ord. o_status ord = Some s) orders)"

definition counts :: "order list \<Rightarrow> counts" where
  "counts orders =
     \<lparr>todas = length orders,
      pendiente = countStatus orders ''pendiente'',
      procesando = countStatus orders ''procesando'',
      completado = countStatus orders ''completado''\<rparr>"

section \<open>The component state and its handlers\<close>

text \<open>
  The part of the state of \<^verbatim>\<open>OrdersManagement\<close> that the handlers below read or
  set: \<^verbatim>\<open>orders\<close>, \<^verbatim>\<open>viewing\<close>, \<^verbatim>\<open>workflow\<close> (the staged workflow),
  \<^verbatim>\<open>wfEditMode\<close>, \<^verbatim>\<open>contractsMap\<close> and \<^verbatim>\<open>contractsByEmail\<close>. A handler reads the
  state of the render it was created in and returns the state after all its
  \<^verbatim>\<open>set...\<close> calls, together with the database and the identifier source.
\<close>

record ui =
  ui_orders :: "order list"
  ui_viewing :: "order option"
  ui_workflow :: "workflow option"
  ui_wfEditMode :: bool
  ui_contractsMap :: contractsMap
  ui_contractsByEmail :: contractsByEmail

text \<open>
  \<^verbatim>\<open>loadContractsMap\<close>:

  \<^verbatim>\<open>snap.docs.forEach(d => {
    const data = { id: d.id, ...(d.data() as any) };
    map[d.id] = data;
    const email = String((data.clientEmail || data.client_email || '').toLowerCase()).trim();
    if (email) byEmail[email] = data;
  });\<close>
\<close>

definition loadContractsMap :: "database \<Rightarrow> contractsMap \<times> contractsByEmail" where
  "loadContractsMap db =
     (map (\<lambda>d. (c_id d, d)) (contractsCol db),
      foldl (\<lambda>byEmail d. if contractEmailKey d \<noteq> [] then byEmail(contractEmailKey d \<mapsto> d) else byEmail)
        (\<lambda>k. None) (contractsCol db))"

text \<open>\<^verbatim>\<open>(w && w.length) ? w : []\<close> for an optional workflow \<open>w\<close>.\<close>

definition workflowOr :: "workflow option \<Rightarrow> workflow" where
  "workflowOr w = (case w of Some x \<Rightarrow> x | None \<Rightarrow> [])"

text \<open>
  \<^verbatim>\<open>const items = getDisplayItems(viewing);
  const names = items.map(it => String(it.name || it.product_id || it.productId || ''));\<close>
\<close>

definition productNames :: "contractsMap \<Rightarrow> contractsByEmail \<Rightarrow> order \<Rightarrow> string list" where
  "productNames cm ce ord = map itemKey (getDisplayItems cm ce ord)"

text \<open>
  \<^verbatim>\<open>const openWorkflow = async (o: OrderItem) => {
    setViewing(o);
    if (!contractsMap || Object.keys(contractsMap).length === 0) { await loadContractsMap(); }
    const base = (o.workflow && o.workflow.length) ? o.workflow : [];
    const items = getDisplayItems(o);
    const names = items.map(...);
    const wf = ensureDeliveryTasks(base, names);
    setWorkflow(JSON.parse(JSON.stringify(wf)));
    if (templates.length === 0) await fetchTemplates();
    setWfEditMode(false);
  };\<close>

  The templates are not part of the modelled state.
\<close>

definition openWorkflow :: "ui \<Rightarrow> database \<Rightarrow> uidSource \<Rightarrow> order \<Rightarrow> ui \<times> uidSource" where
  "openWorkflow u db g ord =
     (let (cm, ce) = (if ui_contractsMap u = [] then loadContractsMap db
                      else (ui_contractsMap u, ui_contractsByEmail u));
          base = workflowOr (o_workflow ord);
          names = productNames (ui_contractsMap u) (ui_contractsByEmail u) ord;
          (wfl, g') = ensureDeliveryTasks base names g
      in (u\<lparr>ui_viewing := Some ord, ui_workflow := Some (jsonClone wfl), ui_wfEditMode := False,
            ui_contractsMap := cm, ui_contractsByEmail := ce\<rparr>, g'))"

text \<open>
  The contract a handler writes to:

  \<^verbatim>\<open>let targetContractId = viewing.contractId || null;
  if (!targetContractId && viewing.customer_email) {
    const key = String(viewing.customer_email).toLowerCase().trim();
    const matched = contractsByEmail[key] || Object.values(contractsMap).find(...) || null;
    if (matched) targetContractId = matched.id;
  }
  if (targetContractId) { ... }\<close>

  The result is \<^const>\<open>None\<close> when the final test fails.
\<close>

definition targetContractId :: "contractsMap \<Rightarrow> contractsByEmail \<Rightarrow> order \<Rightarrow> string option" where
  "targetContractId cm ce viewing =
     (let t = (if truthy (o_contractId viewing) then o_contractId viewing
               else if truthy (o_customer_email viewing) then
                 (let key = emailKey (orEmpty (o_customer_email viewing)) in
                  case (case ce key of
                          Some c1 \<Rightarrow> Some c1
                        | None \<Rightarrow> find (\<lambda>x. contractEmailKey x = key) (map snd cm)) of
                    Some matched \<Rightarrow> Some (c_id matched)
                  | None \<Rightarrow> None)
               else None)
      in if truthy t then t else None)"

text \<open>
  The block that carries the completion of the delivery tasks over to the
  contract, which the source repeats in \<^verbatim>\<open>saveWorkflow\<close> and in both branches of the
  checkbox handler (\<open>wfl\<close> is \<^verbatim>\<open>workflow\<close> in the first and \<^verbatim>\<open>updated\<close> in the others):

  \<^verbatim>\<open>const cSnap = await getDoc(cRef);
  if (cSnap.exists()) {
    const contract = { id: cSnap.id, ...(cSnap.data() as any) } as any;
    const base = (contract.workflow && contract.workflow.length) ? contract.workflow : [];
    const items = getDisplayItems(viewing);
    const names = items.map(...);
    const merged = ensureDeliveryTasks(base, names);
    const ordDeliveryCat = wfl.find(c => normalize(c.name).includes('entrega'));
    if (ordDeliveryCat) {
      merged.forEach(cat => {
        if (normalize(cat.name).includes('entrega')) {
          cat.tasks = cat.tasks.map(t => {
            const match = ordDeliveryCat.tasks.find(ot => normalize(ot.title) === normalize(t.title));
            return match ? { ...t, done: !!match.done } : t;
          });
        }
      });
    }
    await updateDoc(cRef, { workflow: merged } as any);
  }\<close>
\<close>

definition copyDone :: "task list \<Rightarrow> task \<Rightarrow> task" where
  "copyDone ots t =
     (case find (\<lambda>ot. normalize (title ot) = normalize (title t)) ots of
        Some m \<Rightarrow> t\<lparr>task_done := task_done m\<rparr>
      | None \<Rightarrow> t)"

definition mergeDelivery :: "workflow \<Rightarrow> workflow \<Rightarrow> workflow" where
  "mergeDelivery wfl merged =
     (case find isDelivery wfl of
        Some ordDeliveryCat \<Rightarrow>
          map (\<lambda>cat. if isDelivery cat
                      then cat\<lparr>tasks := map (copyDone (tasks ordDeliveryCat)) (tasks cat)\<rparr>
                      else cat) merged
      | None \<Rightarrow> merged)"

definition syncContract ::
  "contractsMap \<Rightarrow> contractsByEmail \<Rightarrow> order \<Rightarrow> workflow \<Rightarrow> string \<Rightarrow> database \<Rightarrow> uidSource
     \<Rightarrow> database \<times> uidSource" where
  "syncContract cm ce viewing wfl cid db g =
     (case getContract db cid of
        None \<Rightarrow> (db, g)
      | Some contract \<Rightarrow>
          (let base = workflowOr (c_workflow contract);
               names = productNames cm ce viewing;
               (merged, g') = ensureDeliveryTasks base names g
           in case updateContract db cid (\<lambda>c. c\<lparr>c_workflow := Some (mergeDelivery wfl merged)\<rparr>) of
                Some db' \<Rightarrow> (db', g')
              | None \<Rightarrow> (db, g')))"

text \<open>
  \<^verbatim>\<open>saveWorkflow\<close>. The first \<^verbatim>\<open>updateDoc\<close> is not guarded by a \<^verbatim>\<open>catch\<close>: when the
  order document is missing the call ends there with the error.

  \<^verbatim>\<open>if (!viewing || !workflow) return;
  ...
  await updateDoc(doc(db, 'orders', viewing.id), { workflow } as any);
  ... targetContractId ...
  if (targetContractId) { ... the block above ... }
  await fetchOrders();\<close>
\<close>

datatype dbError = NotFound

definition saveWorkflow ::
  "env \<Rightarrow> ui \<Rightarrow> database \<Rightarrow> uidSource \<Rightarrow> dbError + (ui \<times> database \<times> uidSource)" where
  "saveWorkflow e u db g =
     (case (ui_viewing u, ui_workflow u) of
        (Some viewing, Some wfl) \<Rightarrow>
          (case updateOrder db (o_id viewing) (\<lambda>d. d\<lparr>o_workflow := Some wfl\<rparr>) of
             None \<Rightarrow> Inl NotFound
           | Some db1 \<Rightarrow>
               (let (db2, g2) =
                      (case targetContractId (ui_contractsMap u) (ui_contractsByEmail u) viewing of
                         Some cid \<Rightarrow>
                           syncContract (ui_contractsMap u) (ui_contractsByEmail u) viewing wfl cid db1 g
                       | None \<Rightarrow> (db1, g));
                    (os, db3, g3) = fetchOrders e db2 g2
                in Inr (u\<lparr>ui_orders := os\<rparr>, db3, g3)))
      | _ \<Rightarrow> Inr (u, db, g))"

text \<open>
  The \<^verbatim>\<open>onChange\<close> handler of the checkbox of task \<open>ti\<close> of category \<open>ci\<close>, with the
  new value \<open>checked\<close>. Here every database error is caught and logged.

  \<^verbatim>\<open>if (!workflow || !viewing) return;
  const updated = workflow.map((c, ci2) => ci2===ci
     ? { ...c, tasks: c.tasks.map((x, ti2)=> ti2===ti ? { ...x, done: checked } : x) } : c);
  setWorkflow(updated);
  try {
    const isVirtual = String(viewing.id || '').startsWith('contract-');
    if (isVirtual) {
      const contractId = viewing.contractId || String(viewing.id || '').replace(/^contract-/, '');
      if (contractId) { ... the block above ... }
    } else {
      await updateDoc(doc(db, 'orders', viewing.id), { workflow: updated } as any);
      ... targetContractId ...
      if (targetContractId) { ... the block above ... }
    }
  } catch (err) { console.warn('Error persisting workflow change', err); }\<close>
\<close>

definition setTaskDone :: "nat \<Rightarrow> bool \<Rightarrow> task list \<Rightarrow> task list" where
  "setTaskDone ti checked ts =
     map (\<lambda>(ti2, x). if ti2 = ti then x\<lparr>task_done := checked\<rparr> else x) (enumerate 0 ts)"

definition updatedWorkflow :: "nat \<Rightarrow> nat \<Rightarrow> bool \<Rightarrow> workflow \<Rightarrow> workflow" where
  "updatedWorkflow ci ti checked wfl =
     map (\<lambda>(ci2, c). if ci2 = ci then c\<lparr>tasks := setTaskDone ti checked (tasks c)\<rparr> else c)
       (enumerate 0 wfl)"

definition toggleTask ::
  "nat \<Rightarrow> nat \<Rightarrow> bool \<Rightarrow> ui \<Rightarrow> database \<Rightarrow> uidSource \<Rightarrow> ui \<times> database \<times> uidSource" where
  "toggleTask ci ti checked u db g =
     (case (ui_workflow u, ui_viewing u) of
        (Some wfl, Some viewing) \<Rightarrow>
          (let updated = updatedWorkflow ci ti checked wfl;
               u' = u\<lparr>ui_workflow := Some updated\<rparr>
           in if startsWith (o_id viewing) ''contract-'' then
                (let contractId = (if truthy (o_contractId viewing) then orEmpty (o_contractId viewing)
                                   else stripContractPrefix (o_id viewing))
                 in if contractId \<noteq> [] then
                      (case syncContract (ui_contractsMap u) (ui_contractsByEmail u) viewing updated
                              contractId db g of
                         (db', g') \<Rightarrow> (u', db', g'))
                    else (u', db, g))
              else
                (case updateOrder db (o_id viewing) (\<lambda>d. d\<lparr>o_workflow := Some updated\<rparr>) of
                   None \<Rightarrow> (u', db, g)
                 | Some db1 \<Rightarrow>
                     (case targetContractId (ui_contractsMap u) (ui_contractsByEmail u) viewing of
                        Some cid \<Rightarrow>
                          (case syncContract (ui_contractsMap u) (ui_contractsByEmail u) viewing updated
                                  cid db1 g of
                             (db', g') \<Rightarrow> (u', db', g'))
                      | None \<Rightarrow> (u', db1, g))))
      | _ \<Rightarrow> (u, db, g))"






section \<open>Vocabulary of the statements about workflows\<close>

text \<open>
  The normalized title of a task, the number of tasks of a list whose normalized
  title is \<open>k\<close>, the task list of the category \<open>ensureDeliveryTasks\<close> works on
  (the first delivery category, if there is one), and the tasks a call of
  \<open>ensureDeliveryTasks\<close> has appended to it.
\<close>

definition normTitle :: "task \<Rightarrow> string" where
  "normTitle t = normalize (title t)"

definition titleCount :: "task list \<Rightarrow> string \<Rightarrow> nat" where
  "titleCount ts k = length (filter (\<lambda>t. normalize (title t) = k) ts)"

definition deliveryTasks :: "workflow \<Rightarrow> task list" where
  "deliveryTasks w = (case findIndex isDelivery w of Some i \<Rightarrow> tasks (w ! i) | None \<Rightarrow> [])"

definition createdTasks :: "workflow \<Rightarrow> string list \<Rightarrow> uidSource \<Rightarrow> task list" where
  "createdTasks w ns g =
     drop (length (deliveryTasks w)) (deliveryTasks (fst (ensureDeliveryTasks w ns g)))"

text \<open>Sample inputs: a source of identifiers, and a task without due date and note.\<close>

definition sampleUids :: uidSource where
  "sampleUids k = ''uid'' @ replicate k CHR ''x''"

definition plainTask :: "string \<Rightarrow> string \<Rightarrow> bool \<Rightarrow> task" where
  "plainTask i ttl d = \<lparr>task_id = i, title = ttl, task_done = d, due = Absent, task_note = None\<rparr>"

text \<open>
  A workflow whose delivery category already holds two tasks with the same
  normalized title, as the edit mode of the screen allows (a task can be added
  and its title typed freely).
\<close>

definition dupWorkflow :: workflow where
  "dupWorkflow =
     [\<lparr>cat_id = ''c1'', cat_name = ''Entrega'',
       tasks = [plainTask ''t1'' ''Entregar A'' False, plainTask ''t2'' ''entregar a'' False]\<rparr>]"

section \<open>Vocabulary of the statements about the display list\<close>

text \<open>
  The number of rows whose normalized label is \<open>k\<close>, and the number of canonical
  contract items whose normalized name is \<open>k\<close>.
\<close>

definition labelCount :: "orderLineItem list \<Rightarrow> string \<Rightarrow> nat" where
  "labelCount rows k = length (filter (\<lambda>r. normalize (itemKey r) = k) rows)"

definition contractNameCount :: "contractItem list \<Rightarrow> string \<Rightarrow> nat" where
  "contractNameCount citems k = length (filter (\<lambda>ci. normalize (ci_name ci) = k) citems)"

text \<open>Sample inputs.\<close>

definition noEmails :: contractsByEmail where
  "noEmails k = None"

text \<open>
  The scenario of the specification: an order with the item
  \<^verbatim>\<open>{name: "album a", qty: 1, price: 50}\<close> linked to a contract with the store item
  \<^verbatim>\<open>{name: "Album A", quantity: 1, price: 80}\<close>.
\<close>

definition albumContract :: contract where
  "albumContract = (emptyContract ''c1'')
     \<lparr>c_storeItems := Some [emptyStoreItem\<lparr>si_name := Some ''Album A'', si_quantity := Some 1,
                                             si_price := Some 80\<rparr>]\<rparr>"

definition albumOrder :: order where
  "albumOrder = (emptyOrder ''o1'')
     \<lparr>o_items := Some [emptyLineItem\<lparr>li_name := Some ''album a'', li_qty := Some 1,
                                       li_price := Some 50\<rparr>],
      o_contractId := Some ''c1''\<rparr>"

text \<open>A contract with two store items whose names normalize to the same string.\<close>

definition twinContract :: contract where
  "twinContract = (emptyContract ''c2'')
     \<lparr>c_storeItems := Some [emptyStoreItem\<lparr>si_name := Some ''Album A'', si_price := Some 80\<rparr>,
                            emptyStoreItem\<lparr>si_name := Some ''album a'', si_price := Some 60\<rparr>]\<rparr>"

definition twinContractOrder :: order where
  "twinContractOrder = (emptyOrder ''o2'')\<lparr>o_items := Some [], o_contractId := Some ''c2''\<rparr>"

text \<open>
  An order with two items whose names normalize to the name of the one store item
  of its contract, and a third item the contract does not have.
\<close>

definition twinOrder :: order where
  "twinOrder = (emptyOrder ''o3'')
     \<lparr>o_items := Some [emptyLineItem\<lparr>li_name := Some ''Album A'', li_qty := Some 1, li_price := Some 50\<rparr>,
                       emptyLineItem\<lparr>li_name := Some ''album a'', li_qty := Some 5, li_price := Some 50\<rparr>,
                       emptyLineItem\<lparr>li_product_id := Some ''Marco'', li_price := Some 30\<rparr>],
      o_contractId := Some ''c1''\<rparr>"

section \<open>Vocabulary of the statements about the loader\<close>

text \<open>
  The order document \<^verbatim>\<open>fetchOrders\<close> creates for a contract, under the identifier
  the database gives it, and the documents a call of \<^verbatim>\<open>fetchOrders\<close> has added to
  the orders collection.
\<close>

definition createdFor :: "env \<Rightarrow> contract \<Rightarrow> string \<Rightarrow> order" where
  "createdFor e c i = (orderData e c (storeItemsOf c))\<lparr>o_id := i\<rparr>"

definition createdOrders :: "env \<Rightarrow> database \<Rightarrow> uidSource \<Rightarrow> order list" where
  "createdOrders e db g = drop (length (ordersCol db)) (ordersCol (fst (snd (fetchOrders e db g))))"

text \<open>
  A contract whose store items all have a value for \<^verbatim>\<open>image_url\<close>: the order data
  built from it have no property without a value. The search box is blank when
  \<^verbatim>\<open>search.trim().toLowerCase()\<close> is the empty string.
\<close>

definition withImages :: "contract \<Rightarrow> bool" where
  "withImages c \<longleftrightarrow> \<not> list_ex (\<lambda>si. si_image_url si = Absent) (storeItemsOf c)"

definition blank :: "string \<Rightarrow> bool" where
  "blank search \<longleftrightarrow> toLowerCase (trim search) = []"

text \<open>
  Sample inputs: surroundings in which the client is online and both ordered
  queries return the documents in the order of the collection; the scenario of
  the specification, a database with the contract
  \<^verbatim>\<open>storeItems: [{name: "Album A", quantity: 2, price: 100}]\<close> and no order; and the
  same scenario with an image for the item.
\<close>

definition sampleEnv :: env where
  "sampleEnv =
     \<lparr>online = True, now = ''2025-01-01T00:00:00.000Z'',
      ordersQuery = (\<lambda>docs. docs), contractsQuery = (\<lambda>docs. docs)\<rparr>"

definition scenarioItem :: storeItem where
  "scenarioItem = emptyStoreItem\<lparr>si_name := Some ''Album A'', si_quantity := Some 2, si_price := Some 100\<rparr>"

definition scenarioContract :: contract where
  "scenarioContract = (emptyContract ''C'')\<lparr>c_storeItems := Some [scenarioItem]\<rparr>"

definition scenarioDb :: database where
  "scenarioDb = \<lparr>ordersCol = [], contractsCol = [scenarioContract]\<rparr>"

definition imageItem :: storeItem where
  "imageItem = scenarioItem\<lparr>si_image_url := Val ''album-a.jpg''\<rparr>"

definition imageContract :: contract where
  "imageContract = (emptyContract ''C'')\<lparr>c_storeItems := Some [imageItem]\<rparr>"

definition imageDb :: database where
  "imageDb = \<lparr>ordersCol = [], contractsCol = [imageContract]\<rparr>"

definition emptyUi :: ui where
  "emptyUi =
     \<lparr>ui_orders = [], ui_viewing = None, ui_workflow = None, ui_wfEditMode = False,
      ui_contractsMap = [], ui_contractsByEmail = (\<lambda>k. None)\<rparr>"

section \<open>Vocabulary of the statements about the handlers\<close>

text \<open>
  The workflow stored in the order document and in the contract document with a
  given identifier, the database a call of \<^verbatim>\<open>saveWorkflow\<close> leaves (the one it
  started from when the call fails), and the pairs of title and done flag of a task
  list.
\<close>

definition persistedOrderWorkflow :: "database \<Rightarrow> string \<Rightarrow> workflow option" where
  "persistedOrderWorkflow db i = (case getOrder db i of Some d \<Rightarrow> o_workflow d | None \<Rightarrow> None)"

definition persistedContractWorkflow :: "database \<Rightarrow> string \<Rightarrow> workflow option" where
  "persistedContractWorkflow db i = (case getContract db i of Some c \<Rightarrow> c_workflow c | None \<Rightarrow> None)"

definition savedDb :: "env \<Rightarrow> ui \<Rightarrow> database \<Rightarrow> uidSource \<Rightarrow> database" where
  "savedDb e u db g = (case saveWorkflow e u db g of Inl err \<Rightarrow> db | Inr (u', db', g') \<Rightarrow> db')"

definition doneFlags :: "task list \<Rightarrow> (string \<times> bool) list" where
  "doneFlags ts = map (\<lambda>t. (title t, task_done t)) ts"

text \<open>
  Two readings of "the done flags of the contract's delivery tasks are those of the
  order's delivery tasks, paired by title". \<open>sameFlags ow cw\<close>: every task of a
  delivery category of the contract workflow \<open>cw\<close> has the done flag of every task
  of the delivery category of the order workflow \<open>ow\<close> with the same normalized
  title. \<open>mirrored ow cw\<close>: it has the done flag of the first such task.
\<close>

definition sameFlags :: "workflow \<Rightarrow> workflow \<Rightarrow> bool" where
  "sameFlags ow cw \<longleftrightarrow>
     list_all (\<lambda>cat. isDelivery cat \<longrightarrow>
        list_all (\<lambda>t. list_all (\<lambda>ot. normalize (title ot) = normalize (title t)
                                       \<longrightarrow> task_done t = task_done ot)
                         (deliveryTasks ow))
          (tasks cat)) cw"

definition mirrored :: "workflow \<Rightarrow> workflow \<Rightarrow> bool" where
  "mirrored ow cw \<longleftrightarrow>
     list_all (\<lambda>cat. isDelivery cat \<longrightarrow>
        list_all (\<lambda>t. case find (\<lambda>ot. normalize (title ot) = normalize (title t)) (deliveryTasks ow) of
                         Some m \<Rightarrow> task_done t = task_done m
                       | None \<Rightarrow> True)
          (tasks cat)) cw"

text \<open>
  Sample inputs: an order of one item "A", stored with the status the loader
  gives, linked to a contract with the store item "A"; and a state of the screen
  in which this order is open and the staged delivery category holds two tasks
  with the same normalized title, one done and one not.
\<close>

definition letterContract :: contract where
  "letterContract = (emptyContract ''c1'')
     \<lparr>c_storeItems := Some [emptyStoreItem\<lparr>si_name := Some ''A'', si_price := Some 10\<rparr>]\<rparr>"

definition letterOrder :: order where
  "letterOrder = (emptyOrder ''o1'')
     \<lparr>o_items := Some [emptyLineItem\<lparr>li_name := Some ''A'', li_qty := Some 1, li_price := Some 10\<rparr>],
      o_status := Some ''pending'', o_contractId := Some ''c1''\<rparr>"

definition letterDb :: database where
  "letterDb = \<lparr>ordersCol = [letterOrder], contractsCol = [letterContract]\<rparr>"

definition twinTasks :: workflow where
  "twinTasks =
     [\<lparr>cat_id = ''k1'', cat_name = ''Entrega'',
       tasks = [plainTask ''t1'' ''Entregar A'' True, plainTask ''t2'' ''entregar a'' False]\<rparr>]"

definition twinUi :: ui where
  "twinUi = emptyUi\<lparr>ui_viewing := Some letterOrder, ui_workflow := Some twinTasks,
                       ui_contractsMap := [(''c1'', letterContract)]\<rparr>"







subsection \<open>The store of a workflow\<close>

text \<open>
  The categories array that \<^verbatim>\<open>JSON.parse\<close> builds for a workflow when the first free
  address is \<open>off\<close>: the tasks array of the category at position \<open>k\<close> is at the
  address \<open>off + k\<close>.
\<close>

definition layout :: "nat \<Rightarrow> workflow \<Rightarrow> (string \<times> string \<times> addr) list" where
  "layout off w = map (\<lambda>(k, c). (cat_id c, cat_name c, k)) (enumerate off w)"

text \<open>
  Sample input: a store holding a workflow of two categories at the address 2, the
  second one a delivery category.
\<close>

definition sampleStore :: store where
  "sampleStore =
     [TaskArr [plainTask ''t1'' ''Revisar'' True],
      TaskArr [plainTask ''t2'' ''Entregar A'' False],
      CatArr [(''k1'', ''Edicion'', 0), (''k2'', ''Entrega'', 1)]]"

definition sampleWorkflow :: workflow where
  "sampleWorkflow =
     [\<lparr>cat_id = ''k1'', cat_name = ''Edicion'', tasks = [plainTask ''t1'' ''Revisar'' True]\<rparr>,
      \<lparr>cat_id = ''k2'', cat_name = ''Entrega'', tasks = [plainTask ''t2'' ''Entregar A'' False]\<rparr>]"

section \<open>Properties of \<open>ensureDeliveryTasks\<close>\<close>

lemma cloneTask_id: "cloneTask t = t"
  by (cases t) (simp add: cloneTask_def)

lemma map_cloneTask_id: "map cloneTask ts = ts"
  by (induction ts) (simp_all add: cloneTask_id)

lemma cloneCategory_id: "cloneCategory c = c"
  by (cases c) (simp add: cloneCategory_def map_cloneTask_id)

lemma jsonClone_id: "jsonClone w = w"
  by (induction w) (simp_all add: jsonClone_def cloneCategory_id)

lemma isDelivery_default: "isDelivery \<lparr>cat_id = i, cat_name = ''Entrega de productos'', tasks = ts\<rparr>"
  unfolding isDelivery_def by code_simp

lemma findIndex_Some: "findIndex P xs = Some i \<Longrightarrow> i < length xs \<and> P (xs ! i) \<and> (\<forall>j<i. \<not> P (xs ! j))"
proof (induction xs arbitrary: i)
  case Nil
  then show ?case by simp
next
  case (Cons x xs)
  show ?case
  proof (cases "P x")
    case True
    with Cons.prems show ?thesis by simp
  next
    case False
    with Cons.prems obtain k where k: "findIndex P xs = Some k" "i = Suc k" by auto
    from Cons.IH[OF k(1)] False k(2) show ?thesis
      by (auto simp: nth_Cons split: nat.splits)
  qed
qed

lemma findIndex_None: "findIndex P xs = None \<longleftrightarrow> (\<forall>x\<in>set xs. \<not> P x)"
  by (induction xs) auto

lemma findIndex_first: "i < length xs \<Longrightarrow> P (xs ! i) \<Longrightarrow> \<forall>j<i. \<not> P (xs ! j) \<Longrightarrow> findIndex P xs = Some i"
proof (induction xs arbitrary: i)
  case Nil
  then show ?case by simp
next
  case (Cons x xs)
  show ?case
  proof (cases i)
    case 0
    with Cons.prems show ?thesis by simp
  next
    case (Suc k)
    with Cons.prems have "\<not> P x" by auto
    moreover from Cons.prems Suc have "findIndex P xs = Some k"
      by (intro Cons.IH) auto
    ultimately show ?thesis using Suc by simp
  qed
qed

lemma findIndex_append_None:
  "findIndex P xs = None \<Longrightarrow> P y \<Longrightarrow> findIndex P (xs @ [y]) = Some (length xs)"
  by (induction xs) (auto split: if_splits)

lemma isDelivery_tasks_update [simp]: "isDelivery (c\<lparr>tasks := ts\<rparr>) = isDelivery c"
  by (simp add: isDelivery_def)

lemma findIndex_update:
  assumes "findIndex isDelivery w = Some i"
  shows "findIndex isDelivery (w[i := (w ! i)\<lparr>tasks := ts\<rparr>]) = Some i"
proof -
  from findIndex_Some[OF assms] have i: "i < length w" "isDelivery (w ! i)" "\<forall>j<i. \<not> isDelivery (w ! j)"
    by auto
  show ?thesis
    by (rule findIndex_first) (use i in \<open>auto simp: nth_list_update\<close>)
qed

lemma hasTitle_append: "hasTitle (ts @ us) k \<longleftrightarrow> hasTitle ts k \<or> hasTitle us k"
  by (auto simp: hasTitle_def list_ex_iff)

lemma hasTitle_newTask: "hasTitle [newTask i ttl] ttl"
  by (simp add: hasTitle_def newTask_def)

lemma push_Cons:
  "pushDeliveryTasks (n # ns) ts g =
     (if hasTitle ts (deliveryTitle n) then pushDeliveryTasks ns ts g
      else pushDeliveryTasks ns (ts @ [newTask (g 0) (deliveryTitle n)]) (\<lambda>k. g (Suc k)))"
  by (simp add: Let_def uid_def)

declare pushDeliveryTasks.simps(2) [simp del]

lemma push_extends: "\<exists>new. fst (pushDeliveryTasks ns ts g) = ts @ new"
proof (induction ns arbitrary: ts g)
  case Nil
  then show ?case by simp
next
  case (Cons n ns)
  show ?case
  proof (cases "hasTitle ts (deliveryTitle n)")
    case True
    then show ?thesis using Cons.IH[of ts g] by (simp add: push_Cons)
  next
    case False
    obtain new where "fst (pushDeliveryTasks ns (ts @ [newTask (g 0) (deliveryTitle n)]) (\<lambda>k. g (Suc k)))
       = (ts @ [newTask (g 0) (deliveryTitle n)]) @ new"
      using Cons.IH by blast
    then show ?thesis using False by (simp add: push_Cons)
  qed
qed

lemma push_keeps_title: "hasTitle ts k \<Longrightarrow> hasTitle (fst (pushDeliveryTasks ns ts g)) k"
  using push_extends[of ns ts g] by (auto simp: hasTitle_append)

lemma push_has_all: "n \<in> set ns \<Longrightarrow> hasTitle (fst (pushDeliveryTasks ns ts g)) (deliveryTitle n)"
proof (induction ns arbitrary: ts g)
  case Nil
  then show ?case by simp
next
  case (Cons m ns)
  show ?case
  proof (cases "n = m")
    case True
    show ?thesis
    proof (cases "hasTitle ts (deliveryTitle m)")
      case h: True
      then show ?thesis using True by (simp add: push_Cons push_keeps_title)
    next
      case False
      have "hasTitle (ts @ [newTask (g 0) (deliveryTitle m)]) (deliveryTitle m)"
        by (simp add: hasTitle_append hasTitle_newTask)
      then show ?thesis using False True by (simp add: push_Cons push_keeps_title)
    qed
  next
    case False
    with Cons.prems have "n \<in> set ns" by simp
    then show ?thesis using Cons.IH by (simp add: push_Cons)
  qed
qed

lemma push_noop: "\<forall>n\<in>set ns. hasTitle ts (deliveryTitle n) \<Longrightarrow> pushDeliveryTasks ns ts g = (ts, g)"
  by (induction ns) (simp_all add: push_Cons)

lemma push_idem:
  "pushDeliveryTasks ns (fst (pushDeliveryTasks ns ts g)) g' = (fst (pushDeliveryTasks ns ts g), g')"
  by (rule push_noop) (simp add: push_has_all)

lemma ensure_Some:
  assumes "findIndex isDelivery w = Some i"
  shows "fst (ensureDeliveryTasks w ns g) = w[i := (w ! i)\<lparr>tasks := fst (pushDeliveryTasks ns (tasks (w ! i)) g)\<rparr>]"
  using assms unfolding ensureDeliveryTasks_def Let_def jsonClone_id
  by (simp only: option.case) (simp add: case_prod_beta)


lemma ensure_None:
  assumes "findIndex isDelivery w = None"
  shows "fst (ensureDeliveryTasks w ns g) =
    w @ [\<lparr>cat_id = g 0, cat_name = ''Entrega de productos'',
           tasks = fst (pushDeliveryTasks ns [] (\<lambda>k. g (Suc k)))\<rparr>]"
  using assms unfolding ensureDeliveryTasks_def Let_def uid_def jsonClone_id
  by (simp only: option.case case_prod_conv) (simp add: case_prod_beta)


lemma ensure_snd_Some:
  assumes "findIndex isDelivery w = Some i"
  shows "snd (ensureDeliveryTasks w ns g) = snd (pushDeliveryTasks ns (tasks (w ! i)) g)"
  using assms unfolding ensureDeliveryTasks_def Let_def jsonClone_id
  by (simp only: option.case) (simp add: case_prod_beta)


text \<open>
  Claim C2. Applying \<open>ensureDeliveryTasks\<close> a second time with the same product
  names returns the workflow of the first application unchanged, whatever
  identifiers either call draws, and the second call draws none: no category and
  no task is added, and the elements created by the first call keep their
  identifiers.
\<close>

theorem ensureDeliveryTasks_idempotent:
  "ensureDeliveryTasks (fst (ensureDeliveryTasks W N g)) N g' = (fst (ensureDeliveryTasks W N g), g')"
proof (cases "findIndex isDelivery W")
  case None
  let ?ts = "fst (pushDeliveryTasks N [] (\<lambda>k. g (Suc k)))"
  let ?c = "\<lparr>cat_id = g 0, cat_name = ''Entrega de productos'', tasks = ?ts\<rparr>"
  let ?R = "W @ [?c]"
  have r: "fst (ensureDeliveryTasks W N g) = ?R"
    by (simp only: ensure_None[OF None])
  have f: "findIndex isDelivery ?R = Some (length W)"
    using None isDelivery_default by (rule findIndex_append_None)
  have "fst (ensureDeliveryTasks ?R N g') = ?R"
    unfolding ensure_Some[OF f] by (simp add: push_idem)
  moreover have "snd (ensureDeliveryTasks ?R N g') = g'"
    unfolding ensure_snd_Some[OF f] by (simp add: push_idem)
  ultimately show ?thesis
    unfolding r by (simp add: prod_eq_iff)
next
  case (Some i)
  let ?ts = "fst (pushDeliveryTasks N (tasks (W ! i)) g)"
  let ?R = "W[i := (W ! i)\<lparr>tasks := ?ts\<rparr>]"
  have i: "i < length W" using findIndex_Some[OF Some] by simp
  have r: "fst (ensureDeliveryTasks W N g) = ?R"
    by (simp only: ensure_Some[OF Some])
  have f: "findIndex isDelivery ?R = Some i"
    by (rule findIndex_update[OF Some])
  have "fst (ensureDeliveryTasks ?R N g') = ?R"
    unfolding ensure_Some[OF f] using i by (simp add: push_idem)
  moreover have "snd (ensureDeliveryTasks ?R N g') = g'"
    unfolding ensure_snd_Some[OF f] using i by (simp add: push_idem)
  ultimately show ?thesis
    unfolding r by (simp add: prod_eq_iff)
qed

lemma hasTitle_iff: "hasTitle ts ttl \<longleftrightarrow> normalize ttl \<in> normTitle ` set ts"
  unfolding hasTitle_def list_ex_iff normTitle_def image_iff by (metis)

lemma titleCount_append: "titleCount (ts @ us) k = titleCount ts k + titleCount us k"
  by (simp add: titleCount_def)

lemma titleCount_pos: "0 < titleCount ts k \<longleftrightarrow> k \<in> normTitle ` set ts"
proof -
  have "0 < titleCount ts k \<longleftrightarrow> filter (\<lambda>t. normalize (title t) = k) ts \<noteq> []"
    by (simp add: titleCount_def)
  also have "\<dots> \<longleftrightarrow> (\<exists>t\<in>set ts. normalize (title t) = k)"
    by (simp add: filter_empty_conv)
  also have "\<dots> \<longleftrightarrow> k \<in> normTitle ` set ts"
    by (auto simp: normTitle_def)
  finally show ?thesis .
qed

lemma titleCount_distinct:
  "distinct (map normTitle ts) \<Longrightarrow> titleCount ts k \<le> 1"
proof (induction ts)
  case Nil
  then show ?case by (simp add: titleCount_def)
next
  case (Cons t ts)
  then have d: "normTitle t \<notin> normTitle ` set ts" and IH: "titleCount ts k \<le> 1"
    by auto
  show ?case
  proof (cases "normTitle t = k")
    case True
    with d have "\<not> 0 < titleCount ts k" by (simp add: titleCount_pos)
    then show ?thesis using True by (simp add: titleCount_def normTitle_def)
  next
    case False
    then show ?thesis using IH by (simp add: titleCount_def normTitle_def)
  qed
qed

lemma normTitle_newTask [simp]: "normTitle (newTask i ttl) = normalize ttl"
  by (simp add: normTitle_def newTask_def)

lemma push_spec:
  "\<exists>new. fst (pushDeliveryTasks ns ts g) = ts @ new
     \<and> (\<forall>t\<in>set new. \<not> task_done t \<and> due t = Absent \<and> task_note t = None \<and> title t \<in> deliveryTitle ` set ns)
     \<and> normTitle ` set new \<inter> normTitle ` set ts = {}
     \<and> distinct (map normTitle new)"
proof (induction ns arbitrary: ts g)
  case Nil
  then show ?case by simp
next
  case (Cons n ns)
  show ?case
  proof (cases "hasTitle ts (deliveryTitle n)")
    case True
    from Cons.IH[of ts g] obtain new where
      "fst (pushDeliveryTasks ns ts g) = ts @ new"
      "\<forall>t\<in>set new. \<not> task_done t \<and> due t = Absent \<and> task_note t = None \<and> title t \<in> deliveryTitle ` set ns"
      "normTitle ` set new \<inter> normTitle ` set ts = {}" "distinct (map normTitle new)"
      by blast
    then show ?thesis using True
      by (intro exI[of _ new]) (simp add: push_Cons)
  next
    case False
    let ?t = "newTask (g 0) (deliveryTitle n)"
    from Cons.IH[of "ts @ [?t]" "\<lambda>k. g (Suc k)"] obtain new where new:
      "fst (pushDeliveryTasks ns (ts @ [?t]) (\<lambda>k. g (Suc k))) = (ts @ [?t]) @ new"
      "\<forall>t\<in>set new. \<not> task_done t \<and> due t = Absent \<and> task_note t = None \<and> title t \<in> deliveryTitle ` set ns"
      "normTitle ` set new \<inter> normTitle ` set (ts @ [?t]) = {}" "distinct (map normTitle new)"
      by blast
    have t: "\<not> task_done ?t" "due ?t = Absent" "task_note ?t = None" "title ?t = deliveryTitle n"
      by (simp_all add: newTask_def)
    have nt: "normTitle ?t \<notin> normTitle ` set ts"
      using False by (simp add: hasTitle_iff)
    have nn: "normTitle ?t \<notin> normTitle ` set new"
      using new(3) by auto
    have "fst (pushDeliveryTasks (n # ns) ts g) = ts @ (?t # new)"
      using False new(1) by (simp add: push_Cons)
    moreover have "\<forall>u\<in>set (?t # new). \<not> task_done u \<and> due u = Absent \<and> task_note u = None \<and> title u \<in> deliveryTitle ` set (n # ns)"
      using new(2) t by auto
    moreover have "normTitle ` set (?t # new) \<inter> normTitle ` set ts = {}"
      using new(3) nt by auto
    moreover have "distinct (map normTitle (?t # new))"
      using new(4) nn by simp
    ultimately show ?thesis by blast
  qed
qed

lemma push_count:
  assumes "n \<in> set ns"
  shows "titleCount (fst (pushDeliveryTasks ns ts g)) (normalize (deliveryTitle n))
           = max 1 (titleCount ts (normalize (deliveryTitle n)))"
proof -
  let ?k = "normalize (deliveryTitle n)"
  obtain new where new: "fst (pushDeliveryTasks ns ts g) = ts @ new"
      "normTitle ` set new \<inter> normTitle ` set ts = {}" "distinct (map normTitle new)"
    using push_spec[of ns ts g] by blast
  have has: "?k \<in> normTitle ` set (ts @ new)"
    using push_has_all[OF assms, of ts g] unfolding new(1) hasTitle_iff .
  have le: "titleCount new ?k \<le> 1"
    by (rule titleCount_distinct[OF new(3)])
  show ?thesis
  proof (cases "?k \<in> normTitle ` set ts")
    case True
    then have "?k \<notin> normTitle ` set new" using new(2) by auto
    then have "titleCount new ?k = 0" using titleCount_pos[of new ?k] by simp
    moreover have "0 < titleCount ts ?k" using True by (simp add: titleCount_pos)
    ultimately show ?thesis unfolding new(1) titleCount_append by simp
  next
    case False
    then have "?k \<in> normTitle ` set new" using has by auto
    then have "0 < titleCount new ?k" by (simp add: titleCount_pos)
    moreover have "titleCount ts ?k = 0" using False titleCount_pos[of ts ?k] by simp
    ultimately show ?thesis unfolding new(1) titleCount_append using le by simp
  qed
qed

lemma deliveryTasks_ensure:
  "deliveryTasks (fst (ensureDeliveryTasks w ns g)) =
     fst (pushDeliveryTasks ns (deliveryTasks w)
            (case findIndex isDelivery w of None \<Rightarrow> snd (uid g) | Some i \<Rightarrow> g))"
proof (cases "findIndex isDelivery w")
  case None
  let ?c = "\<lparr>cat_id = g 0, cat_name = ''Entrega de productos'',
           tasks = fst (pushDeliveryTasks ns [] (\<lambda>k. g (Suc k)))\<rparr>"
  have f: "findIndex isDelivery (w @ [?c]) = Some (length w)"
    using None isDelivery_default by (rule findIndex_append_None)
  show ?thesis
    unfolding ensure_None[OF None] deliveryTasks_def f None by (simp add: uid_def)
next
  case (Some i)
  have i: "i < length w" using findIndex_Some[OF Some] by simp
  show ?thesis
    unfolding ensure_Some[OF Some] deliveryTasks_def findIndex_update[OF Some] Some
    using i by simp
qed

lemma ensure_has_delivery: "findIndex isDelivery (fst (ensureDeliveryTasks w ns g)) \<noteq> None"
proof (cases "findIndex isDelivery w")
  case None
  let ?c = "\<lparr>cat_id = g 0, cat_name = ''Entrega de productos'',
           tasks = fst (pushDeliveryTasks ns [] (\<lambda>k. g (Suc k)))\<rparr>"
  have f: "findIndex isDelivery (w @ [?c]) = Some (length w)"
    using None isDelivery_default by (rule findIndex_append_None)
  show ?thesis unfolding ensure_None[OF None] f by simp
next
  case (Some i)
  show ?thesis unfolding ensure_Some[OF Some] findIndex_update[OF Some] by simp
qed

lemma createdTasks_eq:
  "deliveryTasks (fst (ensureDeliveryTasks w ns g)) = deliveryTasks w @ createdTasks w ns g"
proof -
  obtain new where "deliveryTasks (fst (ensureDeliveryTasks w ns g)) = deliveryTasks w @ new"
    unfolding deliveryTasks_ensure using push_spec by blast
  then show ?thesis by (simp add: createdTasks_def)
qed

lemma createdTasks_spec:
  "(\<forall>t\<in>set (createdTasks w ns g). \<not> task_done t \<and> due t = Absent \<and> task_note t = None \<and> title t \<in> deliveryTitle ` set ns)
     \<and> normTitle ` set (createdTasks w ns g) \<inter> normTitle ` set (deliveryTasks w) = {}
     \<and> distinct (map normTitle (createdTasks w ns g))"
proof -
  let ?g = "case findIndex isDelivery w of None \<Rightarrow> snd (uid g) | Some i \<Rightarrow> g"
  obtain new where new: "fst (pushDeliveryTasks ns (deliveryTasks w) ?g) = deliveryTasks w @ new"
     "\<forall>t\<in>set new. \<not> task_done t \<and> due t = Absent \<and> task_note t = None \<and> title t \<in> deliveryTitle ` set ns"
     "normTitle ` set new \<inter> normTitle ` set (deliveryTasks w) = {}"
     "distinct (map normTitle new)"
    using push_spec[of ns "deliveryTasks w" ?g] by blast
  have "createdTasks w ns g = new"
    unfolding createdTasks_def deliveryTasks_ensure new(1) by simp
  with new show ?thesis by simp
qed


lemma ensure_append_only:
  "fst (ensureDeliveryTasks W N g) =
     (case findIndex isDelivery W of
        Some i \<Rightarrow> W[i := (W ! i)\<lparr>tasks := tasks (W ! i) @ createdTasks W N g\<rparr>]
      | None \<Rightarrow> W @ [\<lparr>cat_id = fst (uid g), cat_name = ''Entrega de productos'',
                        tasks = createdTasks W N g\<rparr>])"
proof (cases "findIndex isDelivery W")
  case None
  have d: "deliveryTasks W = []" by (simp add: deliveryTasks_def None)
  have "createdTasks W N g = fst (pushDeliveryTasks N [] (\<lambda>k. g (Suc k)))"
    using createdTasks_eq[of W N g] unfolding deliveryTasks_ensure d None
    by (simp add: uid_def)
  then show ?thesis
    unfolding ensure_None[OF None] None by (simp add: uid_def)
next
  case (Some i)
  have d: "deliveryTasks W = tasks (W ! i)" by (simp add: deliveryTasks_def Some)
  have "fst (pushDeliveryTasks N (tasks (W ! i)) g) = tasks (W ! i) @ createdTasks W N g"
    using createdTasks_eq[of W N g] unfolding deliveryTasks_ensure d Some by simp
  then show ?thesis
    unfolding ensure_Some[OF Some] Some by simp
qed

text \<open>
  Claim C3, as stated, fails: "exactly one task per product name" does not hold for
  every workflow. \<open>ensureDeliveryTasks\<close> only appends; when the delivery category
  of the input already holds two tasks titled "Entregar A" and "entregar a", both
  are still there after the call with the product name "A".
\<close>

theorem ensureDeliveryTasks_duplicate_titles:
  "titleCount (deliveryTasks (fst (ensureDeliveryTasks dupWorkflow [''A''] sampleUids)))
     (normalize (deliveryTitle ''A'')) = 2"
  by code_simp

text \<open>
  Claim C3, amended. The result of \<open>ensureDeliveryTasks W N\<close> has a delivery category.
  The tasks of its first delivery category are those of the first delivery
  category of \<open>W\<close> (none if \<open>W\<close> has no such category) followed by the created tasks.
  For every product name \<open>n\<close> of \<open>N\<close> the number of tasks whose normalized title is
  that of "Entregar n" is the number \<open>W\<close> already held there, and one if \<open>W\<close> held
  none: exactly one whenever \<open>W\<close> held at most one. Every created task is not
  done, its normalized title was not present in \<open>W\<close>'s delivery category, and no
  two created tasks have the same normalized title, also when \<open>N\<close> repeats a name
  up to normalization.
\<close>

theorem ensureDeliveryTasks_delivery_tasks:
  "findIndex isDelivery (fst (ensureDeliveryTasks W N g)) \<noteq> None
   \<and> deliveryTasks (fst (ensureDeliveryTasks W N g)) = deliveryTasks W @ createdTasks W N g
   \<and> (\<forall>n\<in>set N.
         titleCount (deliveryTasks (fst (ensureDeliveryTasks W N g))) (normalize (deliveryTitle n))
           = max 1 (titleCount (deliveryTasks W) (normalize (deliveryTitle n))))
   \<and> (\<forall>t\<in>set (createdTasks W N g). \<not> task_done t \<and> \<not> hasTitle (deliveryTasks W) (title t))
   \<and> distinct (map normTitle (createdTasks W N g))"
proof -
  have "\<forall>t\<in>set (createdTasks W N g). \<not> hasTitle (deliveryTasks W) (title t)"
    using createdTasks_spec[of W N g] unfolding hasTitle_iff by (auto simp: normTitle_def)
  moreover have "\<forall>n\<in>set N.
         titleCount (deliveryTasks (fst (ensureDeliveryTasks W N g))) (normalize (deliveryTitle n))
           = max 1 (titleCount (deliveryTasks W) (normalize (deliveryTitle n)))"
    unfolding deliveryTasks_ensure by (simp add: push_count)
  ultimately show ?thesis
    using ensure_has_delivery[of W N g] createdTasks_eq[of W N g] createdTasks_spec[of W N g]
    by blast
qed

theorem ensureDeliveryTasks_delivery_tasks_witness:
  "''album a '' \<in> set [''Album A'', ''album a '', ''B'']
   \<and> titleCount (deliveryTasks (fst (ensureDeliveryTasks [] [''Album A'', ''album a '', ''B''] sampleUids)))
         (normalize (deliveryTitle ''album a '')) = 1
   \<and> map title (createdTasks [] [''Album A'', ''album a '', ''B''] sampleUids)
         = [''Entregar Album A'', ''Entregar B'']"
proof -
  let ?N = "[''Album A'', ''album a '', ''B'']"
  have m: "''album a '' \<in> set ?N" by simp
  have w: "titleCount (deliveryTasks []) (normalize (deliveryTitle ''album a '')) = 0"
    by (simp add: deliveryTasks_def titleCount_def)
  have c: "map title (createdTasks [] ?N sampleUids) = [''Entregar Album A'', ''Entregar B'']"
    by code_simp
  have "\<forall>n\<in>set ?N.
         titleCount (deliveryTasks (fst (ensureDeliveryTasks [] ?N sampleUids))) (normalize (deliveryTitle n))
           = max 1 (titleCount (deliveryTasks []) (normalize (deliveryTitle n)))"
    using ensureDeliveryTasks_delivery_tasks[of "[]" ?N sampleUids] by (elim conjE)
  from bspec[OF this m] have
    "titleCount (deliveryTasks (fst (ensureDeliveryTasks [] ?N sampleUids)))
       (normalize (deliveryTitle ''album a '')) = 1"
    unfolding w by simp
  with m c show ?thesis by (intro conjI)
qed

section \<open>Properties of the display reconciler\<close>

lemma itemKey_displayRow [simp]: "itemKey (displayRow n q p t) = n"
  by (simp add: itemKey_def displayRow_def orElse_def orEmpty_def)

lemma itemKey_normalizedRow [simp]: "itemKey (normalizedRow e) = itemKey e"
  by (simp add: normalizedRow_def)

lemma getDisplayItems_contract:
  assumes "resolveContract cm ce ord = Some c" "c_storeItems c = Some sis" "sis \<noteq> []"
  shows "getDisplayItems cm ce ord =
           map (mergedRow (orderItemsOf ord)) (map canonicalItem sis)
             @ extras (map canonicalItem sis) (orderItemsOf ord)"
  unfolding getDisplayItems_def Let_def using assms by simp

lemma matchFor_Some:
  assumes "matchFor ois ci = Some m"
  shows "m \<in> set ois \<and> normalize (itemKey m) = normalize (ci_name ci)"
  using assms unfolding matchFor_def by (auto simp: find_Some_iff)

lemma matchFor_None:
  "matchFor ois ci = None \<longleftrightarrow> (\<forall>oi\<in>set ois. normalize (itemKey oi) \<noteq> normalize (ci_name ci))"
  unfolding matchFor_def by (auto simp: find_None_iff)

lemma itemKey_truthy_name: "truthy (li_name m) \<Longrightarrow> itemKey m = orEmpty (li_name m)"
  by (simp add: itemKey_def orElse_def)

lemma nullish_same: "nullish a a = a"
  by (cases a) simp_all

lemma mergedRow_Some:
  assumes "matchFor ois ci = Some m"
  shows "mergedRow ois ci =
           displayRow (if truthy (li_name m) then orEmpty (li_name m) else ci_name ci)
             (numOr (nullish (li_qty m) (li_quantity m)) (ci_quantity ci))
             (numOr (li_price m) (ci_price ci))
             (case li_total m of
                Some t \<Rightarrow> t
              | None \<Rightarrow> numOr (li_price m) (ci_price ci)
                          * numOr (nullish (li_qty m) (li_quantity m)) (ci_quantity ci))"
  unfolding mergedRow_def Let_def using assms by (simp add: nullish_same split: option.split)

lemma mergedRow_None:
  assumes "matchFor ois ci = None"
  shows "mergedRow ois ci = displayRow (ci_name ci) (ci_quantity ci) (ci_price ci) (ci_total ci)"
  unfolding mergedRow_def using assms by simp

lemma mergedRow_label: "normalize (itemKey (mergedRow ois ci)) = normalize (ci_name ci)"
proof (cases "matchFor ois ci")
  case None
  then show ?thesis by (simp add: mergedRow_None)
next
  case (Some m)
  from matchFor_Some[OF Some] have k: "normalize (itemKey m) = normalize (ci_name ci)" by simp
  show ?thesis
  proof (cases "truthy (li_name m)")
    case True
    then show ?thesis using k by (simp add: mergedRow_Some[OF Some] itemKey_truthy_name)
  next
    case False
    then show ?thesis by (simp add: mergedRow_Some[OF Some])
  qed
qed

lemma labelCount_append: "labelCount (xs @ ys) k = labelCount xs k + labelCount ys k"
  by (simp add: labelCount_def)

lemma labelCount_merged:
  "labelCount (map (mergedRow ois) citems) k = contractNameCount citems k"
  by (induction citems) (simp_all add: labelCount_def contractNameCount_def mergedRow_label)

lemma labelCount_extras:
  assumes "k \<in> contractNames citems"
  shows "labelCount (extras citems ois) k = 0"
proof -
  have "\<forall>r\<in>set (extras citems ois). normalize (itemKey r) \<noteq> k"
    using assms unfolding extras_def by auto
  then show ?thesis
    unfolding labelCount_def by (simp add: filter_empty_conv)
qed

lemma count_distinct_one:
  assumes "distinct (map f xs)" "x \<in> set xs"
  shows "length (filter (\<lambda>y. f y = f x) xs) = 1"
  using assms
proof (induction xs)
  case Nil
  then show ?case by simp
next
  case (Cons a xs)
  show ?case
  proof (cases "f a = f x")
    case True
    with Cons.prems(1) have "\<forall>y\<in>set xs. f y \<noteq> f x" by (auto simp: image_iff)
    then have "filter (\<lambda>y. f y = f x) xs = []" by (simp add: filter_empty_conv)
    then show ?thesis using True by simp
  next
    case False
    with Cons.prems have "x \<in> set xs" "distinct (map f xs)" by auto
    then show ?thesis using Cons.IH False by simp
  qed
qed

lemma display_labelCount:
  assumes "resolveContract cm ce ord = Some c" "c_storeItems c = Some sis" "sis \<noteq> []"
      and "ci \<in> set (map canonicalItem sis)"
  shows "labelCount (getDisplayItems cm ce ord) (normalize (ci_name ci))
           = contractNameCount (map canonicalItem sis) (normalize (ci_name ci))"
proof -
  have "normalize (ci_name ci) \<in> contractNames (map canonicalItem sis)"
    using assms(4) unfolding contractNames_def by auto
  then show ?thesis
    unfolding getDisplayItems_contract[OF assms(1-3)] labelCount_append labelCount_merged
    by (simp only: labelCount_extras add_0_right)
qed


lemma resolve_album: "resolveContract [(''c1'', albumContract)] noEmails albumOrder = Some albumContract"
  by (simp add: resolveContract_def albumOrder_def emptyOrder_def orEmpty_def)

lemma resolve_twinOrder: "resolveContract [(''c1'', albumContract)] noEmails twinOrder = Some albumContract"
  by (simp add: resolveContract_def twinOrder_def emptyOrder_def orEmpty_def)

lemma resolve_twinContract:
  "resolveContract [(''c2'', twinContract)] noEmails twinContractOrder = Some twinContract"
  by (simp add: resolveContract_def twinContractOrder_def emptyOrder_def orEmpty_def)

lemma album_storeItems:
  "c_storeItems albumContract =
     Some [emptyStoreItem\<lparr>si_name := Some ''Album A'', si_quantity := Some 1, si_price := Some 80\<rparr>]"
  by (simp add: albumContract_def emptyContract_def)

text \<open>
  Claim C1, as stated, fails on the label. In the scenario of the specification
  the display list is the one row the claim describes, with quantity 1 and price
  50 from the order item, but the row is labelled with the order item's name,
  "album a", not with the contract's "Album A": the source returns
  \<^verbatim>\<open>name: match.name || ci.name\<close>.
\<close>

theorem getDisplayItems_scenario_label:
  "getDisplayItems [(''c1'', albumContract)] noEmails albumOrder = [displayRow ''album a'' 1 50 50]"
  by code_simp

text \<open>
  Claim C1, amended. Let the order resolve to a contract with store items, and let
  the \<open>i\<close>-th contract item have a name match among the stored order items, \<open>m\<close>
  being the first of them. Then the \<open>i\<close>-th row of the display list takes its
  quantity from \<open>m\<close> (\<^verbatim>\<open>qty\<close>, else \<^verbatim>\<open>quantity\<close>, else the contract's quantity), its
  price from \<open>m\<close> (else the contract's price) and its total from \<open>m\<close> (recomputed
  as price times quantity when \<open>m\<close> has none). Its label is the name of \<open>m\<close> when \<open>m\<close>
  has a non-empty name and the contract item's name otherwise; in both cases it
  normalizes to the normalized name of the contract item.
\<close>

theorem getDisplayItems_matched_row:
  assumes "resolveContract cm ce ord = Some c" and "c_storeItems c = Some sis" and "sis \<noteq> []"
      and "i < length sis"
      and "matchFor (orderItemsOf ord) (canonicalItem (sis ! i)) = Some m"
  shows "getDisplayItems cm ce ord ! i =
           displayRow
             (if truthy (li_name m) then orEmpty (li_name m) else ci_name (canonicalItem (sis ! i)))
             (numOr (nullish (li_qty m) (li_quantity m)) (ci_quantity (canonicalItem (sis ! i))))
             (numOr (li_price m) (ci_price (canonicalItem (sis ! i))))
             (case li_total m of
                Some t \<Rightarrow> t
              | None \<Rightarrow> numOr (li_price m) (ci_price (canonicalItem (sis ! i)))
                          * numOr (nullish (li_qty m) (li_quantity m))
                              (ci_quantity (canonicalItem (sis ! i))))
         \<and> normalize (itemKey (getDisplayItems cm ce ord ! i))
               = normalize (ci_name (canonicalItem (sis ! i)))
         \<and> m \<in> set (orderItemsOf ord)
         \<and> normalize (itemKey m) = normalize (ci_name (canonicalItem (sis ! i)))"
proof -
  have row: "getDisplayItems cm ce ord ! i = mergedRow (orderItemsOf ord) (canonicalItem (sis ! i))"
    unfolding getDisplayItems_contract[OF assms(1-3)] using assms(4)
    by (simp add: nth_append)
  show ?thesis
    unfolding row mergedRow_label
    using matchFor_Some[OF assms(5)] by (simp add: mergedRow_Some[OF assms(5)])
qed

theorem getDisplayItems_matched_row_witness:
  "getDisplayItems [(''c1'', albumContract)] noEmails albumOrder ! 0 = displayRow ''album a'' 1 50 50
   \<and> normalize ''album a'' = normalize ''Album A''"
proof -
  let ?si = "emptyStoreItem\<lparr>si_name := Some ''Album A'', si_quantity := Some 1, si_price := Some 80\<rparr>"
  let ?m = "emptyLineItem\<lparr>li_name := Some ''album a'', li_qty := Some 1, li_price := Some 50\<rparr>"
  have m: "matchFor (orderItemsOf albumOrder) (canonicalItem ([?si] ! 0)) = Some ?m"
    by code_simp
  have n: "[?si] \<noteq> []" "0 < length [?si]" by simp_all
  have v: "li_name ?m = Some ''album a''" "li_qty ?m = Some 1" "li_price ?m = Some 50"
      "li_total ?m = None" "li_quantity ?m = None"
    by (simp_all add: emptyLineItem_def)
  have k: "ci_name (canonicalItem ([?si] ! 0)) = ''Album A''"
    by (simp add: canonicalItem_def emptyStoreItem_def orElse_def orEmpty_def)
  have ik: "itemKey ?m = ''album a''"
    by (simp add: itemKey_def emptyLineItem_def orElse_def orEmpty_def)
  show ?thesis
    using getDisplayItems_matched_row[OF resolve_album album_storeItems n m]
    unfolding v k ik by (simp add: numOr_def orEmpty_def)
qed


text \<open>
  Claim C4, as stated, fails for a contract holding two store items whose names
  normalize to the same string: each of them yields a row, so the name appears
  twice in the display list.
\<close>

theorem getDisplayItems_twin_contract_items:
  "labelCount (getDisplayItems [(''c2'', twinContract)] noEmails twinContractOrder)
     (normalize ''Album A'') = 2"
  by code_simp

text \<open>
  Claim C4, amended. When the order resolves to a contract with store items, the
  number of rows of the display list whose normalized label is the normalized name
  of a contract item equals the number of contract items with that normalized
  name, whatever the case and the diacritics of the names stored in the order. So
  every contract item name appears exactly once whenever the names of the
  contract's store items are pairwise different after normalization.
\<close>

theorem getDisplayItems_contract_names:
  assumes "resolveContract cm ce ord = Some c" and "c_storeItems c = Some sis" and "sis \<noteq> []"
  shows "(\<forall>ci\<in>set (map canonicalItem sis).
            labelCount (getDisplayItems cm ce ord) (normalize (ci_name ci))
              = contractNameCount (map canonicalItem sis) (normalize (ci_name ci)))
       \<and> (distinct (map (\<lambda>ci. normalize (ci_name ci)) (map canonicalItem sis)) \<longrightarrow>
            (\<forall>ci\<in>set (map canonicalItem sis).
               labelCount (getDisplayItems cm ce ord) (normalize (ci_name ci)) = 1))"
proof -
  have a: "\<forall>ci\<in>set (map canonicalItem sis).
            labelCount (getDisplayItems cm ce ord) (normalize (ci_name ci))
              = contractNameCount (map canonicalItem sis) (normalize (ci_name ci))"
    using display_labelCount[OF assms] by blast
  have "contractNameCount (map canonicalItem sis) (normalize (ci_name ci)) = 1"
    if "distinct (map (\<lambda>ci. normalize (ci_name ci)) (map canonicalItem sis))"
      and "ci \<in> set (map canonicalItem sis)" for ci
    unfolding contractNameCount_def using count_distinct_one[OF that] .
  with a show ?thesis by simp
qed

theorem getDisplayItems_contract_names_witness:
  "distinct (map (\<lambda>ci. normalize (ci_name ci))
      (map canonicalItem [emptyStoreItem\<lparr>si_name := Some ''Album A'', si_quantity := Some 1,
                                         si_price := Some 80\<rparr>]))
   \<and> labelCount (getDisplayItems [(''c1'', albumContract)] noEmails twinOrder) (normalize ''Album A'') = 1"
proof -
  let ?si = "emptyStoreItem\<lparr>si_name := Some ''Album A'', si_quantity := Some 1, si_price := Some 80\<rparr>"
  have n: "[?si] \<noteq> []" by simp
  have k: "ci_name (canonicalItem ?si) = ''Album A''"
    by (simp add: canonicalItem_def emptyStoreItem_def orElse_def orEmpty_def)
  show ?thesis
    using getDisplayItems_contract_names[OF resolve_twinOrder album_storeItems n]
    by (simp add: k)
qed




section \<open>Properties of the order store loader\<close>

lemma image_url_itemForOrder [simp]: "li_image_url (itemForOrder si) = si_image_url si"
  by (simp add: itemForOrder_def Let_def)

lemma undefinedProperty_orderData:
  "undefinedProperty (orderData e c (storeItemsOf c)) \<longleftrightarrow> \<not> withImages c"
  by (simp add: undefinedProperty_def withImages_def orderData_def orderItemsOf_def list_ex_iff)

lemma contractsLoop_Cons:
  "contractsLoop e items (c # cs) db g generated =
     (if storeItemsOf c = [] \<or> existsInItems items c then contractsLoop e items cs db g generated
      else if ordersOfContract db (c_id c) \<noteq> [] then
        contractsLoop e items cs db g
          (generated @ [aggregatedOrder e c (hd (ordersOfContract db (c_id c))) (ordersOfContract db (c_id c))])
      else if \<not> withImages c then contractsLoop e items cs db g generated
      else contractsLoop e items cs
             (db\<lparr>ordersCol := ordersCol db @ [(orderData e c (storeItemsOf c))\<lparr>o_id := g 0\<rparr>]\<rparr>)
             (\<lambda>k. g (Suc k))
             (generated @ [(orderData e c (storeItemsOf c))\<lparr>o_id := g 0\<rparr>]))"
  by (cases "ordersOfContract db (c_id c)")
     (simp_all add: addOrder_def uid_def undefinedProperty_orderData)

declare contractsLoop.simps(2) [simp del]

lemma createdFor_contractId [simp]: "o_contractId (createdFor e c i) = Some (c_id c)"
  by (simp add: createdFor_def orderData_def)

lemma ordersOfContract_append:
  "ordersOfContract (db\<lparr>ordersCol := ordersCol db @ xs\<rparr>) i
     = ordersOfContract db i @ filter (\<lambda>d. o_contractId d = Some i) xs"
  by (simp add: ordersOfContract_def)

lemma contractsLoop_spec:
  "\<exists>new gen. fst (snd (contractsLoop e items cs db g generated)) = db\<lparr>ordersCol := ordersCol db @ new\<rparr>
     \<and> fst (contractsLoop e items cs db g generated) = generated @ gen
     \<and> set new \<subseteq> set gen
     \<and> (\<forall>d\<in>set new. \<exists>c\<in>set cs. \<exists>i. d = createdFor e c i \<and> storeItemsOf c \<noteq> [] \<and> withImages c
            \<and> \<not> existsInItems items c \<and> ordersOfContract db (c_id c) = [])
     \<and> distinct (map o_contractId new)"
proof (induction cs arbitrary: db g generated)
  case Nil
  show ?case by (intro exI[of _ "[]"]) simp
next
  case (Cons c cs)
  consider (skip) "storeItemsOf c = [] \<or> existsInItems items c
                     \<or> (ordersOfContract db (c_id c) = [] \<and> \<not> withImages c)"
    | (agg) "\<not> (storeItemsOf c = [] \<or> existsInItems items c)" "ordersOfContract db (c_id c) \<noteq> []"
    | (new) "\<not> (storeItemsOf c = [] \<or> existsInItems items c)" "ordersOfContract db (c_id c) = []"
            "withImages c"
    by blast
  then show ?case
  proof cases
    case skip
    from Cons.IH[of db g generated] obtain new gen where
      h: "fst (snd (contractsLoop e items cs db g generated)) = db\<lparr>ordersCol := ordersCol db @ new\<rparr>"
         "fst (contractsLoop e items cs db g generated) = generated @ gen"
         "set new \<subseteq> set gen"
         "\<forall>d\<in>set new. \<exists>c\<in>set cs. \<exists>i. d = createdFor e c i \<and> storeItemsOf c \<noteq> [] \<and> withImages c
            \<and> \<not> existsInItems items c \<and> ordersOfContract db (c_id c) = []"
         "distinct (map o_contractId new)"
      by blast
    have "\<forall>d\<in>set new. \<exists>c'\<in>set (c # cs). \<exists>i. d = createdFor e c' i \<and> storeItemsOf c' \<noteq> [] \<and> withImages c'
            \<and> \<not> existsInItems items c' \<and> ordersOfContract db (c_id c') = []"
      using h(4) by auto
    moreover have "contractsLoop e items (c # cs) db g generated
                     = contractsLoop e items cs db g generated"
      unfolding contractsLoop_Cons using skip by auto
    ultimately show ?thesis
      using h(1,2,3,5) by (intro exI[of _ new] exI[of _ gen]) simp
  next
    case agg
    let ?a = "aggregatedOrder e c (hd (ordersOfContract db (c_id c))) (ordersOfContract db (c_id c))"
    from Cons.IH[of db g "generated @ [?a]"] obtain new gen where
      h: "fst (snd (contractsLoop e items cs db g (generated @ [?a]))) = db\<lparr>ordersCol := ordersCol db @ new\<rparr>"
         "fst (contractsLoop e items cs db g (generated @ [?a])) = (generated @ [?a]) @ gen"
         "set new \<subseteq> set gen"
         "\<forall>d\<in>set new. \<exists>c\<in>set cs. \<exists>i. d = createdFor e c i \<and> storeItemsOf c \<noteq> [] \<and> withImages c
            \<and> \<not> existsInItems items c \<and> ordersOfContract db (c_id c) = []"
         "distinct (map o_contractId new)"
      by blast
    have "\<forall>d\<in>set new. \<exists>c'\<in>set (c # cs). \<exists>i. d = createdFor e c' i \<and> storeItemsOf c' \<noteq> [] \<and> withImages c'
            \<and> \<not> existsInItems items c' \<and> ordersOfContract db (c_id c') = []"
      using h(4) by auto
    moreover have "set new \<subseteq> set (?a # gen)" using h(3) by auto
    ultimately show ?thesis
      using h(1,2,5) agg
      unfolding contractsLoop_Cons by (intro exI[of _ new] exI[of _ "?a # gen"]) simp
  next
    case new
    let ?d = "createdFor e c (g 0)"
    let ?db = "db\<lparr>ordersCol := ordersCol db @ [?d]\<rparr>"
    from Cons.IH[of ?db "\<lambda>k. g (Suc k)" "generated @ [?d]"] obtain new' gen where
      h: "fst (snd (contractsLoop e items cs ?db (\<lambda>k. g (Suc k)) (generated @ [?d])))
            = ?db\<lparr>ordersCol := ordersCol ?db @ new'\<rparr>"
         "fst (contractsLoop e items cs ?db (\<lambda>k. g (Suc k)) (generated @ [?d])) = (generated @ [?d]) @ gen"
         "set new' \<subseteq> set gen"
         "\<forall>d\<in>set new'. \<exists>c\<in>set cs. \<exists>i. d = createdFor e c i \<and> storeItemsOf c \<noteq> [] \<and> withImages c
            \<and> \<not> existsInItems items c \<and> ordersOfContract ?db (c_id c) = []"
         "distinct (map o_contractId new')"
      by blast
    have sub: "ordersOfContract db i = [] \<and> i \<noteq> c_id c" if "ordersOfContract ?db i = []" for i
      using that unfolding ordersOfContract_append by (auto split: if_splits)
    have a: "\<forall>d\<in>set (?d # new'). \<exists>c'\<in>set (c # cs). \<exists>i. d = createdFor e c' i \<and> storeItemsOf c' \<noteq> [] \<and> withImages c'
            \<and> \<not> existsInItems items c' \<and> ordersOfContract db (c_id c') = []"
    proof
      fix d assume "d \<in> set (?d # new')"
      then consider "d = ?d" | "d \<in> set new'" by auto
      then show "\<exists>c'\<in>set (c # cs). \<exists>i. d = createdFor e c' i \<and> storeItemsOf c' \<noteq> [] \<and> withImages c'
            \<and> \<not> existsInItems items c' \<and> ordersOfContract db (c_id c') = []"
      proof cases
        case 1
        then show ?thesis using new by auto
      next
        case 2
        with h(4) obtain c' i where "c' \<in> set cs" "d = createdFor e c' i" "storeItemsOf c' \<noteq> []"
            "withImages c'" "\<not> existsInItems items c'" "ordersOfContract ?db (c_id c') = []"
          by blast
        then show ?thesis using sub[of "c_id c'"] by auto
      qed
    qed
    have "o_contractId ?d \<notin> set (map o_contractId new')"
    proof
      assume "o_contractId ?d \<in> set (map o_contractId new')"
      then obtain d where d: "d \<in> set new'" "o_contractId d = Some (c_id c)" by auto
      with h(4) obtain c' i where "d = createdFor e c' i" "ordersOfContract ?db (c_id c') = []"
        by blast
      with d(2) sub[of "c_id c'"] show False by simp
    qed
    then have dist: "distinct (map o_contractId (?d # new'))" using h(5) by simp
    have s: "set (?d # new') \<subseteq> set (?d # gen)" using h(3) by auto
    have db: "fst (snd (contractsLoop e items (c # cs) db g generated))
                = db\<lparr>ordersCol := ordersCol db @ (?d # new')\<rparr>"
      unfolding contractsLoop_Cons using new h(1) by (simp add: createdFor_def)
    have gen: "fst (contractsLoop e items (c # cs) db g generated) = generated @ (?d # gen)"
      unfolding contractsLoop_Cons using new h(2) by (simp add: createdFor_def)
    from db gen s a dist show ?thesis by blast
  qed
qed


lemma contractsLoop_creates:
  assumes "C \<in> set cs" "storeItemsOf C \<noteq> []" "withImages C" "\<not> existsInItems items C"
      and "ordersOfContract db (c_id C) = []"
  shows "ordersOfContract (fst (snd (contractsLoop e items cs db g generated))) (c_id C) \<noteq> []"
  using assms
proof (induction cs arbitrary: db g generated)
  case Nil
  then show ?case by simp
next
  case (Cons c cs)
  consider (skip) "storeItemsOf c = [] \<or> existsInItems items c
                     \<or> (ordersOfContract db (c_id c) = [] \<and> \<not> withImages c)"
    | (agg) "\<not> (storeItemsOf c = [] \<or> existsInItems items c)" "ordersOfContract db (c_id c) \<noteq> []"
    | (new) "\<not> (storeItemsOf c = [] \<or> existsInItems items c)" "ordersOfContract db (c_id c) = []"
            "withImages c"
    by blast
  then show ?case
  proof cases
    case skip
    with Cons.prems have "C \<in> set cs" by auto
    moreover have "contractsLoop e items (c # cs) db g generated
                     = contractsLoop e items cs db g generated"
      unfolding contractsLoop_Cons using skip by auto
    ultimately show ?thesis
      using Cons.IH[of db g generated] Cons.prems(2,3,4,5) by simp
  next
    case agg
    with Cons.prems have "C \<in> set cs" by auto
    from Cons.IH[OF this Cons.prems(2,3,4,5)] agg show ?thesis
      unfolding contractsLoop_Cons by simp
  next
    case new
    let ?d = "createdFor e c (g 0)"
    let ?db = "db\<lparr>ordersCol := ordersCol db @ [?d]\<rparr>"
    have step: "contractsLoop e items (c # cs) db g generated
                  = contractsLoop e items cs ?db (\<lambda>k. g (Suc k)) (generated @ [?d])"
      unfolding contractsLoop_Cons using new by (simp add: createdFor_def)
    show ?thesis
    proof (cases "c_id c = c_id C")
      case True
      obtain new' where "fst (snd (contractsLoop e items cs ?db (\<lambda>k. g (Suc k)) (generated @ [?d])))
            = ?db\<lparr>ordersCol := ordersCol ?db @ new'\<rparr>"
        using contractsLoop_spec[of e items cs ?db "\<lambda>k. g (Suc k)" "generated @ [?d]"] by blast
      then show ?thesis
        unfolding step using True by (simp add: ordersOfContract_def)
    next
      case False
      with Cons.prems have "C \<in> set cs" by auto
      moreover have "ordersOfContract ?db (c_id C) = []"
        unfolding ordersOfContract_append using Cons.prems(5) False by simp
      ultimately show ?thesis
        unfolding step using Cons.IH Cons.prems(2,3,4) by blast
    qed
  qed
qed

lemma fetchOrders_online:
  assumes "online e"
  shows "fetchOrders e db g =
     (ordersQuery e (ordersCol db)
        @ fst (contractsLoop e (ordersQuery e (ordersCol db)) (contractsQuery e (contractsCol db)) db g []),
      snd (contractsLoop e (ordersQuery e (ordersCol db)) (contractsQuery e (contractsCol db)) db g []))"
  using assms unfolding fetchOrders_def Let_def by (simp add: case_prod_beta)

lemma fetchOrders_offline:
  assumes "\<not> online e"
  shows "fetchOrders e db g = ([], db, g)"
  using assms unfolding fetchOrders_def by simp

lemma fetchOrders_spec:
  "\<exists>new. fst (snd (fetchOrders e db g)) = db\<lparr>ordersCol := ordersCol db @ new\<rparr>
     \<and> set new \<subseteq> set (fst (fetchOrders e db g))
     \<and> (\<forall>d\<in>set new. \<exists>c\<in>set (contractsQuery e (contractsCol db)). \<exists>i. d = createdFor e c i
            \<and> storeItemsOf c \<noteq> [] \<and> ordersOfContract db (c_id c) = [])
     \<and> distinct (map o_contractId new)"
proof (cases "online e")
  case False
  show ?thesis unfolding fetchOrders_offline[OF False] by (intro exI[of _ "[]"]) simp
next
  case True
  let ?items = "ordersQuery e (ordersCol db)"
  let ?cs = "contractsQuery e (contractsCol db)"
  from contractsLoop_spec[of e ?items ?cs db g "[]"] obtain new gen where
    h: "fst (snd (contractsLoop e ?items ?cs db g [])) = db\<lparr>ordersCol := ordersCol db @ new\<rparr>"
       "fst (contractsLoop e ?items ?cs db g []) = [] @ gen"
       "set new \<subseteq> set gen"
       "\<forall>d\<in>set new. \<exists>c\<in>set ?cs. \<exists>i. d = createdFor e c i \<and> storeItemsOf c \<noteq> [] \<and> withImages c
            \<and> \<not> existsInItems ?items c \<and> ordersOfContract db (c_id c) = []"
       "distinct (map o_contractId new)"
    by blast
  have "\<forall>d\<in>set new. \<exists>c\<in>set ?cs. \<exists>i. d = createdFor e c i
            \<and> storeItemsOf c \<noteq> [] \<and> ordersOfContract db (c_id c) = []"
    using h(4) by blast
  moreover have "set new \<subseteq> set (fst (fetchOrders e db g))"
    unfolding fetchOrders_online[OF True] using h(2,3) by auto
  moreover have "fst (snd (fetchOrders e db g)) = db\<lparr>ordersCol := ordersCol db @ new\<rparr>"
    unfolding fetchOrders_online[OF True] using h(1) by simp
  ultimately show ?thesis using h(5) by blast
qed

lemma createdOrders_spec:
  "fst (snd (fetchOrders e db g)) = db\<lparr>ordersCol := ordersCol db @ createdOrders e db g\<rparr>
     \<and> set (createdOrders e db g) \<subseteq> set (fst (fetchOrders e db g))
     \<and> (\<forall>d\<in>set (createdOrders e db g). \<exists>c\<in>set (contractsQuery e (contractsCol db)). \<exists>i.
            d = createdFor e c i \<and> storeItemsOf c \<noteq> [] \<and> ordersOfContract db (c_id c) = [])
     \<and> distinct (map o_contractId (createdOrders e db g))"
proof -
  obtain new where new: "fst (snd (fetchOrders e db g)) = db\<lparr>ordersCol := ordersCol db @ new\<rparr>"
     "set new \<subseteq> set (fst (fetchOrders e db g))"
     "\<forall>d\<in>set new. \<exists>c\<in>set (contractsQuery e (contractsCol db)). \<exists>i. d = createdFor e c i
            \<and> storeItemsOf c \<noteq> [] \<and> ordersOfContract db (c_id c) = []"
     "distinct (map o_contractId new)"
    using fetchOrders_spec[of e db g] by blast
  have "createdOrders e db g = new"
    unfolding createdOrders_def new(1) by simp
  with new show ?thesis by simp
qed

lemma createdFor_status [simp]: "o_status (createdFor e c i) = Some ''pending''"
  by (simp add: createdFor_def orderData_def)

lemma pending_no_status: "statusString s \<noteq> ''pending''"
  by (cases s) simp_all

lemma filter_distinct_le1:
  assumes "distinct (map f xs)" "filter (\<lambda>x. f x = k) xs \<noteq> []"
  shows "\<exists>x. filter (\<lambda>x. f x = k) xs = [x] \<and> x \<in> set xs \<and> f x = k"
  using assms
proof (induction xs)
  case Nil
  then show ?case by simp
next
  case (Cons a xs)
  show ?case
  proof (cases "f a = k")
    case True
    with Cons.prems(1) have "\<forall>y\<in>set xs. f y \<noteq> k" by (auto simp: image_iff)
    then have "filter (\<lambda>x. f x = k) xs = []" by (simp add: filter_empty_conv)
    then show ?thesis using True by simp
  next
    case False
    with Cons.prems have "distinct (map f xs)" "filter (\<lambda>x. f x = k) xs \<noteq> []" by auto
    from Cons.IH[OF this] False show ?thesis by auto
  qed
qed

lemma fetchOrders_creates:
  assumes "online e" "C \<in> set (contractsQuery e (contractsCol db))" "storeItemsOf C \<noteq> []"
      and "withImages C"
      and "\<not> existsInItems (ordersQuery e (ordersCol db)) C" "ordersOfContract db (c_id C) = []"
  shows "ordersOfContract (fst (snd (fetchOrders e db g))) (c_id C) \<noteq> []"
  unfolding fetchOrders_online[OF assms(1)] using contractsLoop_creates[OF assms(2-6)] by simp

lemma fetchOrders_one_order:
  assumes "online e" "C \<in> set (contractsQuery e (contractsCol db))" "storeItemsOf C \<noteq> []"
      and "withImages C"
      and "\<not> existsInItems (ordersQuery e (ordersCol db)) C" "ordersOfContract db (c_id C) = []"
      and "\<forall>c\<in>set (contractsQuery e (contractsCol db)). c_id c = c_id C \<longrightarrow> c = C"
  shows "\<exists>i. ordersOfContract (fst (snd (fetchOrders e db g))) (c_id C) = [createdFor e C i]
            \<and> createdFor e C i \<in> set (fst (fetchOrders e db g))"
proof -
  let ?new = "createdOrders e db g"
  note sp = createdOrders_spec[of e db g]
  have db1: "fst (snd (fetchOrders e db g)) = db\<lparr>ordersCol := ordersCol db @ ?new\<rparr>"
    using sp by simp
  have f: "ordersOfContract (fst (snd (fetchOrders e db g))) (c_id C)
             = filter (\<lambda>d. o_contractId d = Some (c_id C)) ?new"
    unfolding db1 ordersOfContract_append assms(6) by simp
  have ne: "filter (\<lambda>d. o_contractId d = Some (c_id C)) ?new \<noteq> []"
    using fetchOrders_creates[OF assms(1-6), of g] unfolding f .
  have "distinct (map o_contractId ?new)" using sp by simp
  from filter_distinct_le1[OF this ne] obtain d where
    d: "filter (\<lambda>d. o_contractId d = Some (c_id C)) ?new = [d]" "d \<in> set ?new"
       "o_contractId d = Some (c_id C)"
    by blast
  from sp d(2) obtain c i where c: "c \<in> set (contractsQuery e (contractsCol db))" "d = createdFor e c i"
    by blast
  with d(3) have "c_id c = c_id C" by simp
  with assms(7) c(1) have "c = C" by blast
  moreover have "d \<in> set (fst (fetchOrders e db g))" using sp d(2) by blast
  ultimately show ?thesis using f d(1) c(2) by auto
qed

lemma fetchOrders_no_second:
  assumes "ordersOfContract db (c_id C) \<noteq> []"
  shows "ordersOfContract (fst (snd (fetchOrders e db g))) (c_id C) = ordersOfContract db (c_id C)"
proof -
  let ?new = "createdOrders e db g"
  note sp = createdOrders_spec[of e db g]
  have db1: "fst (snd (fetchOrders e db g)) = db\<lparr>ordersCol := ordersCol db @ ?new\<rparr>"
    using sp by simp
  have "o_contractId d \<noteq> Some (c_id C)" if "d \<in> set ?new" for d
  proof -
    from sp that obtain c i where "d = createdFor e c i" "ordersOfContract db (c_id c) = []"
      by blast
    with assms show ?thesis by auto
  qed
  then have "filter (\<lambda>d. o_contractId d = Some (c_id C)) ?new = []"
    by (simp add: filter_empty_conv)
  then show ?thesis unfolding db1 ordersOfContract_append by simp
qed


lemma scenario_orderData:
  assumes "c_storeItems C = Some [scenarioItem\<lparr>si_image_url := img\<rparr>]"
  shows "o_totalAmount (createdFor e C i) = Some (200 + numOr (c_travelFee C) 0)"
    and "o_status (createdFor e C i) = Some ''pending''"
    and "o_workflow (createdFor e C i) = None"
    and "o_items (createdFor e C i)
           = Some [emptyLineItem\<lparr>li_name := Some ''Album A'', li_quantity := Some 2,
                                   li_price := Some 100, li_total := Some 200,
                                   li_image_url := img\<rparr>]"
    and "o_contractId (createdFor e C i) = Some (c_id C)"
    and "o_customer_email (createdFor e C i) = None"
proof -
  have s: "storeItemsOf C = [scenarioItem\<lparr>si_image_url := img\<rparr>]"
    by (simp add: storeItemsOf_def assms)
  have it: "itemForOrder (scenarioItem\<lparr>si_image_url := img\<rparr>)
              = emptyLineItem\<lparr>li_name := Some ''Album A'', li_quantity := Some 2,
                                   li_price := Some 100, li_total := Some 200,
                                   li_image_url := img\<rparr>"
    by (simp add: itemForOrder_def scenarioItem_def emptyStoreItem_def qtyOr1_def numOr_def
                  orElse_def orEmpty_def Let_def)
  show "o_totalAmount (createdFor e C i) = Some (200 + numOr (c_travelFee C) 0)"
    by (simp add: createdFor_def orderData_def s it sumTotals_def emptyLineItem_def numOr_def)
  show "o_status (createdFor e C i) = Some ''pending''" by simp
  show "o_workflow (createdFor e C i) = None"
    by (simp add: createdFor_def orderData_def emptyOrder_def)
  show "o_items (createdFor e C i)
           = Some [emptyLineItem\<lparr>li_name := Some ''Album A'', li_quantity := Some 2,
                                   li_price := Some 100, li_total := Some 200,
                                   li_image_url := img\<rparr>]"
    by (simp add: createdFor_def orderData_def s it)
  show "o_contractId (createdFor e C i) = Some (c_id C)" by simp
  show "o_customer_email (createdFor e C i) = None"
    by (simp add: createdFor_def orderData_def emptyOrder_def)
qed

lemma scenario_withImages:
  assumes "c_storeItems C = Some [scenarioItem\<lparr>si_image_url := img\<rparr>]"
  shows "withImages C \<longleftrightarrow> img \<noteq> Absent"
  by (simp add: withImages_def storeItemsOf_def assms)

lemma normalize_album: "normalize ''Album A'' = ''album a''"
  by code_simp

lemma scenario_names:
  assumes "c_storeItems C = Some [scenarioItem\<lparr>si_image_url := img\<rparr>]"
      and "resolveContract cm ce (createdFor e C i) = Some C \<or> resolveContract cm ce (createdFor e C i) = None"
  shows "productNames cm ce (createdFor e C i) = [''Album A'']"
proof -
  let ?si = "scenarioItem\<lparr>si_image_url := img\<rparr>"
  let ?it = "emptyLineItem\<lparr>li_name := Some ''Album A'', li_quantity := Some 2,
                                   li_price := Some 100, li_total := Some 200,
                                   li_image_url := img\<rparr>"
  have ois: "orderItemsOf (createdFor e C i) = [?it]"
    by (simp add: orderItemsOf_def scenario_orderData(4)[OF assms(1)])
  have k: "itemKey ?it = ''Album A''"
    by (simp add: itemKey_def emptyLineItem_def orElse_def orEmpty_def)
  have cn: "ci_name (canonicalItem ?si) = ''Album A''"
    by (simp add: canonicalItem_def scenarioItem_def emptyStoreItem_def orElse_def orEmpty_def)
  from assms(2) show ?thesis
  proof
    assume r: "resolveContract cm ce (createdFor e C i) = Some C"
    have n: "[?si] \<noteq> []" by simp
    have m: "matchFor [?it] (canonicalItem ?si) = Some ?it"
      by (simp add: matchFor_def k cn)
    have t: "truthy (li_name ?it)" "orEmpty (li_name ?it) = ''Album A''"
      by (simp_all add: emptyLineItem_def orEmpty_def)
    have ex: "extras [canonicalItem ?si] [?it] = []"
      by (simp add: extras_def contractNames_def k cn)
    show ?thesis
      unfolding productNames_def getDisplayItems_contract[OF r assms(1) n] ois
      by (simp add: mergedRow_Some[OF m] t ex orEmpty_def)
  next
    assume r: "resolveContract cm ce (createdFor e C i) = None"
    show ?thesis
      unfolding productNames_def getDisplayItems_def Let_def r ois
      by (simp add: k)
  qed
qed

lemma openWorkflow_staged:
  "ui_workflow (fst (openWorkflow u db g ord))
     = Some (fst (ensureDeliveryTasks (workflowOr (o_workflow ord))
                    (productNames (ui_contractsMap u) (ui_contractsByEmail u) ord) g))"
  unfolding openWorkflow_def Let_def by (simp add: case_prod_beta jsonClone_id)

lemma ensure_empty_single:
  "fst (ensureDeliveryTasks [] [n] g)
     = [\<lparr>cat_id = g 0, cat_name = ''Entrega de productos'',
          tasks = [newTask (g (Suc 0)) (deliveryTitle n)]\<rparr>]"
proof -
  have "findIndex isDelivery [] = None" by simp
  from ensure_None[OF this, of "[n]" g] show ?thesis
    by (simp add: push_Cons hasTitle_def)
qed


lemma image_run:
  "createdOrders sampleEnv imageDb sampleUids = [createdFor sampleEnv imageContract ''uid'']"
  "fst (fetchOrders sampleEnv imageDb sampleUids) = [createdFor sampleEnv imageContract ''uid'']"
  "ordersCol (fst (snd (fetchOrders sampleEnv imageDb sampleUids)))
     = [createdFor sampleEnv imageContract ''uid'']"
  by code_simp+

lemma image_contract: "c_storeItems imageContract = Some [scenarioItem\<lparr>si_image_url := Val ''album-a.jpg''\<rparr>]"
  by (simp add: imageContract_def imageItem_def)

text \<open>
  Claim C8, as stated, fails. With the contract as the scenario gives it,
  \<^verbatim>\<open>storeItems: [{name: "Album A", quantity: 2, price: 100}]\<close>, the item of the order
  data has the property \<^verbatim>\<open>image_url\<close> without a value, \<^verbatim>\<open>addDoc\<close> refuses the data and
  one run of the loader leaves the orders collection and the list of the screen
  empty. With an image for the item one run writes one order with \<^verbatim>\<open>totalAmount\<close>
  200 and status \<^verbatim>\<open>'pending'\<close>, but the document and the order held in memory carry
  no workflow, hence no delivery category: \<^verbatim>\<open>orderData\<close> has no \<^verbatim>\<open>workflow\<close> field.
\<close>

theorem fetchOrders_scenario_not_met:
  "ordersCol (fst (snd (fetchOrders sampleEnv scenarioDb sampleUids))) = []
   \<and> fst (fetchOrders sampleEnv scenarioDb sampleUids) = []
   \<and> map o_totalAmount (ordersCol (fst (snd (fetchOrders sampleEnv imageDb sampleUids)))) = [Some 200]
   \<and> map o_status (ordersCol (fst (snd (fetchOrders sampleEnv imageDb sampleUids)))) = [Some ''pending'']
   \<and> map o_workflow (ordersCol (fst (snd (fetchOrders sampleEnv imageDb sampleUids)))) = [None]
   \<and> map o_workflow (fst (fetchOrders sampleEnv imageDb sampleUids)) = [None]"
  by code_simp

text \<open>
  Claim C8, amended. Let the client be online, let the contracts query return the
  contract \<open>C\<close> with the store items
  \<^verbatim>\<open>[{name: "Album A", quantity: 2, price: 100, image_url: img}]\<close>, where \<open>img\<close> is a
  value (a string or \<^verbatim>\<open>null\<close>), and no other contract under its identifier, and let
  no order refer to \<open>C\<close>, neither in the list of the orders query nor in the
  collection. After one run of the loader the orders of \<open>C\<close> in the database are
  exactly one document, which is also in the list of the screen; its
  \<^verbatim>\<open>totalAmount\<close> is 200 plus the travel fee, its status is \<^verbatim>\<open>'pending'\<close> and it has
  no workflow. After a further run, in whatever surroundings, the orders of \<open>C\<close> are
  that same one document. The delivery category with the one task
  "Entregar Album A", not done, is what \<^verbatim>\<open>openWorkflow\<close> stages when this order is
  opened with contract lookups that resolve it to \<open>C\<close> or to no contract.
\<close>

theorem fetchOrders_scenario_order:
  assumes "online e"
      and "C \<in> set (contractsQuery e (contractsCol db))"
      and "\<forall>c\<in>set (contractsQuery e (contractsCol db)). c_id c = c_id C \<longrightarrow> c = C"
      and "c_storeItems C = Some [scenarioItem\<lparr>si_image_url := img\<rparr>]"
      and "img \<noteq> Absent"
      and "\<not> existsInItems (ordersQuery e (ordersCol db)) C"
      and "ordersOfContract db (c_id C) = []"
  shows "\<exists>i. ordersOfContract (fst (snd (fetchOrders e db g))) (c_id C) = [createdFor e C i]
     \<and> createdFor e C i \<in> set (fst (fetchOrders e db g))
     \<and> o_totalAmount (createdFor e C i) = Some (200 + numOr (c_travelFee C) 0)
     \<and> o_status (createdFor e C i) = Some ''pending''
     \<and> o_workflow (createdFor e C i) = None
     \<and> (\<forall>e' g'. ordersOfContract (fst (snd (fetchOrders e' (fst (snd (fetchOrders e db g))) g'))) (c_id C)
                    = [createdFor e C i])
     \<and> (\<forall>u db' g'.
           resolveContract (ui_contractsMap u) (ui_contractsByEmail u) (createdFor e C i) = Some C
           \<or> resolveContract (ui_contractsMap u) (ui_contractsByEmail u) (createdFor e C i) = None
           \<longrightarrow> ui_workflow (fst (openWorkflow u db' g' (createdFor e C i)))
                 = Some [\<lparr>cat_id = g' 0, cat_name = ''Entrega de productos'',
                          tasks = [newTask (g' (Suc 0)) ''Entregar Album A'']\<rparr>])"
proof -
  have s: "storeItemsOf C \<noteq> []" by (simp add: storeItemsOf_def assms(4))
  have w: "withImages C" using scenario_withImages[OF assms(4)] assms(5) by simp
  from fetchOrders_one_order[OF assms(1,2) s w assms(6,7,3), of g] obtain i where
    i: "ordersOfContract (fst (snd (fetchOrders e db g))) (c_id C) = [createdFor e C i]"
       "createdFor e C i \<in> set (fst (fetchOrders e db g))"
    by blast
  have second: "ordersOfContract (fst (snd (fetchOrders e' (fst (snd (fetchOrders e db g))) g'))) (c_id C)
                    = [createdFor e C i]" for e' g'
  proof -
    have "ordersOfContract (fst (snd (fetchOrders e db g))) (c_id C) \<noteq> []" using i(1) by simp
    from fetchOrders_no_second[OF this, of e' g'] i(1) show ?thesis by simp
  qed
  have opened: "ui_workflow (fst (openWorkflow u db' g' (createdFor e C i)))
                 = Some [\<lparr>cat_id = g' 0, cat_name = ''Entrega de productos'',
                          tasks = [newTask (g' (Suc 0)) ''Entregar Album A'']\<rparr>]"
    if "resolveContract (ui_contractsMap u) (ui_contractsByEmail u) (createdFor e C i) = Some C
           \<or> resolveContract (ui_contractsMap u) (ui_contractsByEmail u) (createdFor e C i) = None"
    for u db' g'
    unfolding openWorkflow_staged scenario_orderData(3)[OF assms(4)] scenario_names[OF assms(4) that]
    by (simp add: workflowOr_def ensure_empty_single deliveryTitle_def)
  show ?thesis
    using i second opened scenario_orderData(1,2,3)[OF assms(4), of e i] by blast
qed

theorem fetchOrders_scenario_order_witness:
  "ordersOfContract (fst (snd (fetchOrders sampleEnv imageDb sampleUids))) ''C''
     = [createdFor sampleEnv imageContract ''uid'']
   \<and> o_totalAmount (createdFor sampleEnv imageContract ''uid'') = Some 200
   \<and> o_status (createdFor sampleEnv imageContract ''uid'') = Some ''pending''
   \<and> length (ordersOfContract
        (fst (snd (fetchOrders sampleEnv (fst (snd (fetchOrders sampleEnv imageDb sampleUids))) sampleUids)))
        ''C'') = 1"
proof -
  have h: "online sampleEnv"
       "imageContract \<in> set (contractsQuery sampleEnv (contractsCol imageDb))"
       "\<forall>c\<in>set (contractsQuery sampleEnv (contractsCol imageDb)).
           c_id c = c_id imageContract \<longrightarrow> c = imageContract"
       "c_storeItems imageContract = Some [scenarioItem\<lparr>si_image_url := Val ''album-a.jpg''\<rparr>]"
       "Val ''album-a.jpg'' \<noteq> (Absent :: string nullable)"
       "\<not> existsInItems (ordersQuery sampleEnv (ordersCol imageDb)) imageContract"
       "ordersOfContract imageDb (c_id imageContract) = []"
    by (simp_all add: sampleEnv_def imageDb_def imageContract_def imageItem_def emptyContract_def
                      existsInItems_def ordersOfContract_def)
  have c: "c_id imageContract = ''C''" "numOr (c_travelFee imageContract) 0 = 0"
    by (simp_all add: imageContract_def emptyContract_def numOr_def)
  have r: "ordersOfContract (fst (snd (fetchOrders sampleEnv imageDb sampleUids))) ''C''
             = [createdFor sampleEnv imageContract ''uid'']"
    by (simp add: ordersOfContract_def image_run(3) c(1))
  from fetchOrders_scenario_order[OF h, of sampleUids] obtain i where
    i: "ordersOfContract (fst (snd (fetchOrders sampleEnv imageDb sampleUids))) (c_id imageContract)
       = [createdFor sampleEnv imageContract i]"
    "o_totalAmount (createdFor sampleEnv imageContract i) = Some (200 + numOr (c_travelFee imageContract) 0)"
    "o_status (createdFor sampleEnv imageContract i) = Some ''pending''"
    "\<forall>e' g'. ordersOfContract
        (fst (snd (fetchOrders e' (fst (snd (fetchOrders sampleEnv imageDb sampleUids))) g')))
        (c_id imageContract) = [createdFor sampleEnv imageContract i]"
    by blast
  from i(1) r have e: "createdFor sampleEnv imageContract i = createdFor sampleEnv imageContract ''uid''"
    unfolding c by simp
  from i(2,3,4) r show ?thesis unfolding c e by simp
qed

lemma countStatus_without:
  assumes "\<forall>d\<in>set os. P d \<longrightarrow> o_status d \<noteq> Some s"
  shows "countStatus os s = countStatus (filter (\<lambda>d. \<not> P d) os) s"
proof -
  have "filter (\<lambda>ord. o_status ord = Some s) (filter (\<lambda>d. \<not> P d) os)
          = filter (\<lambda>ord. o_status ord = Some s) os"
    unfolding filter_filter using assms by (intro filter_cong) auto
  then show ?thesis by (simp add: countStatus_def)
qed

lemma createdFor_bySearch: "bySearch search (createdFor e c i) \<longleftrightarrow> blank search"
  by (simp add: bySearch_def blank_def createdFor_def orderData_def emptyOrder_def orEmpty_def
                toLowerCase_def Let_def)

text \<open>
  Claim C10. Every order document a run of the loader adds to the database has the
  status \<^verbatim>\<open>'pending'\<close>, which is none of the strings of \<^verbatim>\<open>OrderStatus\<close>. Such an order
  is in the list of the screen, so \<^verbatim>\<open>counts.todas\<close> counts it, while the three
  counts by status are those of the list without the created orders. It is in the
  filtered list, which is the list displayed, exactly when the status filter is
  \<^verbatim>\<open>'todas'\<close> and the search box is blank: under each of the three status filters it
  is hidden, and under \<^verbatim>\<open>'todas'\<close> it is shown unless a search text hides it (the
  created order has no \<^verbatim>\<open>customer_name\<close> and no \<^verbatim>\<open>customer_email\<close>).
\<close>

theorem fetchOrders_created_pending:
  "(\<forall>d\<in>set (createdOrders e db g).
      o_status d = Some ''pending''
      \<and> d \<in> set (fst (fetchOrders e db g))
      \<and> (\<forall>sf search. d \<in> set (filtered (fst (fetchOrders e db g)) sf search)
                          \<longleftrightarrow> sf = Todas \<and> blank search))
   \<and> (\<forall>s. statusString s \<noteq> ''pending'')
   \<and> pendiente (counts (fst (fetchOrders e db g)))
       = pendiente (counts (filter (\<lambda>d. d \<notin> set (createdOrders e db g)) (fst (fetchOrders e db g))))
   \<and> procesando (counts (fst (fetchOrders e db g)))
       = procesando (counts (filter (\<lambda>d. d \<notin> set (createdOrders e db g)) (fst (fetchOrders e db g))))
   \<and> completado (counts (fst (fetchOrders e db g)))
       = completado (counts (filter (\<lambda>d. d \<notin> set (createdOrders e db g)) (fst (fetchOrders e db g))))
   \<and> todas (counts (fst (fetchOrders e db g)))
       = todas (counts (filter (\<lambda>d. d \<notin> set (createdOrders e db g)) (fst (fetchOrders e db g))))
         + length (filter (\<lambda>d. d \<in> set (createdOrders e db g)) (fst (fetchOrders e db g)))"
proof -
  let ?os = "fst (fetchOrders e db g)"
  let ?new = "createdOrders e db g"
  note sp = createdOrders_spec[of e db g]
  have st: "o_status d = Some ''pending''" if "d \<in> set ?new" for d
    using sp that by auto
  have m: "d \<in> set ?os" if "d \<in> set ?new" for d
    using sp that by auto
  have f: "d \<in> set (filtered ?os sf search) \<longleftrightarrow> sf = Todas \<and> blank search"
    if "d \<in> set ?new" for d sf search
  proof -
    from sp that obtain c i where d: "d = createdFor e c i" by blast
    have b: "byStatus sf d \<longleftrightarrow> sf = Todas"
    proof (cases sf)
      case Todas
      then show ?thesis by (simp add: byStatus_def)
    next
      case (Status s)
      then show ?thesis using st[OF that] by (simp add: byStatus_def pending_no_status[symmetric])
    qed
    show ?thesis
      using m[OF that] b createdFor_bySearch[of search e c i] unfolding d filtered_def by simp
  qed
  have c: "countStatus ?os (statusString s)
             = countStatus (filter (\<lambda>d. \<not> d \<in> set ?new) ?os) (statusString s)" for s
    by (rule countStatus_without) (simp add: st pending_no_status[symmetric])
  have t: "length ?os = length (filter (\<lambda>d. d \<notin> set ?new) ?os) + length (filter (\<lambda>d. d \<in> set ?new) ?os)"
    using sum_length_filter_compl[of "\<lambda>d. d \<in> set ?new" ?os] by simp
  show ?thesis
    using st m f c[of Pendiente] c[of Procesando] c[of Completado] t
    by (simp add: counts_def pending_no_status)
qed

theorem fetchOrders_created_pending_witness:
  "createdFor sampleEnv imageContract ''uid'' \<in> set (createdOrders sampleEnv imageDb sampleUids)
   \<and> o_status (createdFor sampleEnv imageContract ''uid'') = Some ''pending''
   \<and> filtered (fst (fetchOrders sampleEnv imageDb sampleUids)) Todas []
       = [createdFor sampleEnv imageContract ''uid'']
   \<and> filtered (fst (fetchOrders sampleEnv imageDb sampleUids)) (Status Pendiente) [] = []
   \<and> filtered (fst (fetchOrders sampleEnv imageDb sampleUids)) Todas ''album'' = []
   \<and> todas (counts (fst (fetchOrders sampleEnv imageDb sampleUids))) = 1
   \<and> pendiente (counts (fst (fetchOrders sampleEnv imageDb sampleUids))) = 0"
proof -
  let ?d = "createdFor sampleEnv imageContract ''uid''"
  have m: "?d \<in> set (createdOrders sampleEnv imageDb sampleUids)"
    by (simp add: image_run)
  have z: "pendiente (counts []) = 0" "todas (counts []) = 0"
    by (simp_all add: counts_def countStatus_def)
  have b: "blank []" "\<not> blank ''album''" by code_simp+
  note t = fetchOrders_created_pending[of sampleEnv imageDb sampleUids]
  from t m have d: "o_status ?d = Some ''pending''"
      "\<forall>sf search. ?d \<in> set (filtered (fst (fetchOrders sampleEnv imageDb sampleUids)) sf search)
                          \<longleftrightarrow> sf = Todas \<and> blank search"
    by blast+
  have single: "filtered [?d] sf search = (if ?d \<in> set (filtered [?d] sf search) then [?d] else [])"
    for sf search
    by (simp add: filtered_def)
  have f1: "filtered [?d] Todas [] = [?d]"
    using d(2) b(1) single[of Todas "[]"] unfolding image_run by simp
  have f2: "filtered [?d] (Status Pendiente) [] = []"
    using d(2) single[of "Status Pendiente" "[]"] unfolding image_run by simp
  have f3: "filtered [?d] Todas ''album'' = []"
    using d(2) b(2) single[of Todas "''album''"] unfolding image_run by simp
  have cnt: "todas (counts [?d]) = 1" "pendiente (counts [?d]) = 0"
    using t m unfolding image_run by (simp_all add: z)
  show ?thesis
    unfolding image_run using m d(1) f1 f2 f3 cnt unfolding image_run by simp
qed

section \<open>Properties of the handlers\<close>

lemma find_map_update:
  assumes "\<And>x. key (f x) = key x"
  shows "find (\<lambda>x. key x = i) (map (\<lambda>x. if key x = i then f x else x) xs)
           = map_option f (find (\<lambda>x. key x = i) xs)"
  by (induction xs) (simp_all add: assms)

lemma find_map_update_other:
  assumes "\<And>x. key (f x) = key x" "j \<noteq> i"
  shows "find (\<lambda>x. key x = j) (map (\<lambda>x. if key x = i then f x else x) xs)
           = find (\<lambda>x. key x = j) xs"
  using assms(2) by (induction xs) (simp_all add: assms(1))

lemma find_append_Some:
  "find P xs = Some x \<Longrightarrow> find P (xs @ ys) = Some x"
  by (induction xs) (auto split: if_splits)

lemma find_list_ex: "list_ex P xs \<longleftrightarrow> find P xs \<noteq> None"
  by (induction xs) auto

lemma updateOrder_Some:
  assumes "getOrder db i = Some d"
  shows "\<exists>db'. updateOrder db i f = Some db' \<and> contractsCol db' = contractsCol db
           \<and> ordersCol db' = map (\<lambda>d. if o_id d = i then f d else d) (ordersCol db)"
  using assms unfolding updateOrder_def getOrder_def by (simp add: find_list_ex)

lemma updateOrder_None:
  assumes "getOrder db i = None"
  shows "updateOrder db i f = None"
  using assms unfolding updateOrder_def getOrder_def by (simp add: find_list_ex)

lemma getOrder_updated:
  assumes "updateOrder db i f = Some db'" "\<And>x. o_id (f x) = o_id x"
  shows "getOrder db' i = map_option f (getOrder db i)"
    and "contractsCol db' = contractsCol db"
    and "getContract db' j = getContract db j"
proof -
  from assms(1) have db': "db' = db\<lparr>ordersCol := map (\<lambda>d. if o_id d = i then f d else d) (ordersCol db)\<rparr>"
    unfolding updateOrder_def by (auto split: if_splits)
  show "getOrder db' i = map_option f (getOrder db i)"
    unfolding db' getOrder_def using find_map_update[of o_id f i "ordersCol db"] assms(2) by simp
  show "contractsCol db' = contractsCol db" unfolding db' by simp
  then show "getContract db' j = getContract db j" by (simp add: getContract_def)
qed

lemma getContract_updated:
  assumes "getContract db i = Some c" "\<And>x. c_id (f x) = c_id x"
  shows "\<exists>db'. updateContract db i f = Some db' \<and> getContract db' i = Some (f c)
           \<and> ordersCol db' = ordersCol db"
proof -
  have ex: "list_ex (\<lambda>c. c_id c = i) (contractsCol db)"
    using assms(1) unfolding getContract_def by (simp add: find_list_ex)
  let ?db = "db\<lparr>contractsCol := map (\<lambda>c. if c_id c = i then f c else c) (contractsCol db)\<rparr>"
  have "updateContract db i f = Some ?db" unfolding updateContract_def using ex by simp
  moreover have "getContract ?db i = Some (f c)"
    unfolding getContract_def using find_map_update[of c_id f i "contractsCol db"] assms by (simp add: getContract_def)
  ultimately show ?thesis by simp
qed

lemma getOrder_ordersCol: "ordersCol db' = ordersCol db \<Longrightarrow> getOrder db' i = getOrder db i"
  by (simp add: getOrder_def)

lemma fetchOrders_keeps:
  "getContract (fst (snd (fetchOrders e db g))) i = getContract db i"
  "contractsCol (fst (snd (fetchOrders e db g))) = contractsCol db"
  "getOrder db i = Some d \<Longrightarrow> getOrder (fst (snd (fetchOrders e db g))) i = Some d"
proof -
  note sp = createdOrders_spec[of e db g]
  have db1: "fst (snd (fetchOrders e db g)) = db\<lparr>ordersCol := ordersCol db @ createdOrders e db g\<rparr>"
    using sp by simp
  show "contractsCol (fst (snd (fetchOrders e db g))) = contractsCol db" unfolding db1 by simp
  then show "getContract (fst (snd (fetchOrders e db g))) i = getContract db i"
    by (simp add: getContract_def)
  show "getOrder (fst (snd (fetchOrders e db g))) i = Some d" if "getOrder db i = Some d"
    unfolding db1 using that by (simp add: getOrder_def find_append_Some)
qed

lemma syncContract_Some:
  assumes "getContract db cid = Some contract"
  shows "getContract (fst (syncContract cm ce viewing wfl cid db g)) cid
           = Some (contract\<lparr>c_workflow := Some (mergeDelivery wfl
                 (fst (ensureDeliveryTasks (workflowOr (c_workflow contract)) (productNames cm ce viewing) g)))\<rparr>)"
    and "ordersCol (fst (syncContract cm ce viewing wfl cid db g)) = ordersCol db"
proof -
  let ?f = "\<lambda>c. c\<lparr>c_workflow := Some (mergeDelivery wfl
                 (fst (ensureDeliveryTasks (workflowOr (c_workflow contract)) (productNames cm ce viewing) g)))\<rparr>"
  have "\<And>x. c_id (?f x) = c_id x" by simp
  from getContract_updated[OF assms this] obtain db' where
    db': "updateContract db cid ?f = Some db'" "getContract db' cid = Some (?f contract)"
         "ordersCol db' = ordersCol db"
    by blast
  have s: "fst (syncContract cm ce viewing wfl cid db g) = db'"
    unfolding syncContract_def Let_def using assms db'(1) by (simp add: case_prod_beta)
  show "getContract (fst (syncContract cm ce viewing wfl cid db g)) cid = Some (?f contract)"
    unfolding s by (rule db'(2))
  show "ordersCol (fst (syncContract cm ce viewing wfl cid db g)) = ordersCol db"
    unfolding s by (rule db'(3))
qed

lemma syncContract_None:
  assumes "getContract db cid = None"
  shows "syncContract cm ce viewing wfl cid db g = (db, g)"
  unfolding syncContract_def using assms by simp

lemma copyDone_empty [simp]: "copyDone [] t = t"
  by (simp add: copyDone_def)

lemma find_isDelivery: "find isDelivery w = (case findIndex isDelivery w of Some i \<Rightarrow> Some (w ! i) | None \<Rightarrow> None)"
  by (induction w) (auto split: option.splits)

lemma mergeDelivery_eq:
  "mergeDelivery wfl merged
     = map (\<lambda>cat. if isDelivery cat then cat\<lparr>tasks := map (copyDone (deliveryTasks wfl)) (tasks cat)\<rparr>
                   else cat) merged"
proof (cases "findIndex isDelivery wfl")
  case None
  then show ?thesis
    unfolding mergeDelivery_def deliveryTasks_def find_isDelivery
    by (simp add: map_idI)
next
  case (Some i)
  then show ?thesis
    unfolding mergeDelivery_def deliveryTasks_def find_isDelivery by simp
qed


lemma copyDone_fields [simp]:
  "title (copyDone ots t) = title t" "task_id (copyDone ots t) = task_id t"
  "due (copyDone ots t) = due t" "task_note (copyDone ots t) = task_note t"
  by (simp_all add: copyDone_def split: option.splits)

lemma copyDone_done:
  "task_done (copyDone ots t)
     = (case find (\<lambda>ot. normalize (title ot) = normalize (title t)) ots of
          Some m \<Rightarrow> task_done m | None \<Rightarrow> task_done t)"
  by (simp add: copyDone_def split: option.splits)

lemma mirrored_mergeDelivery: "mirrored w (mergeDelivery w merged)"
proof -
  let ?ots = "deliveryTasks w"
  let ?ok = "\<lambda>t. case find (\<lambda>ot. normalize (title ot) = normalize (title t)) ?ots of
                   Some m \<Rightarrow> task_done t = task_done m | None \<Rightarrow> True"
  have t: "?ok (copyDone ?ots t0)" for t0
    by (simp add: copyDone_done split: option.splits)
  have "isDelivery cat \<longrightarrow> list_all ?ok (tasks cat)"
    if "cat \<in> set (mergeDelivery w merged)" for cat
  proof
    assume d: "isDelivery cat"
    from that obtain c0 where c0: "c0 \<in> set merged"
      "cat = (if isDelivery c0 then c0\<lparr>tasks := map (copyDone ?ots) (tasks c0)\<rparr> else c0)"
      unfolding mergeDelivery_eq by auto
    with d have "isDelivery c0" by (auto split: if_splits)
    with c0(2) have "tasks cat = map (copyDone ?ots) (tasks c0)" by simp
    then show "list_all ?ok (tasks cat)" using t by (simp add: list_all_iff)
  qed
  then show ?thesis unfolding mirrored_def by (simp add: list_all_iff)
qed


lemma saveWorkflow_result:
  assumes "ui_viewing u = Some v" and "ui_workflow u = Some wfl"
      and "getOrder db (o_id v) = Some d"
      and "targetContractId (ui_contractsMap u) (ui_contractsByEmail u) v = Some cid"
      and "getContract db cid = Some contract"
  shows "(\<exists>u' g'. saveWorkflow e u db g = Inr (u', savedDb e u db g, g'))
           \<and> persistedOrderWorkflow (savedDb e u db g) (o_id v) = Some wfl
           \<and> persistedContractWorkflow (savedDb e u db g) cid
               = Some (mergeDelivery wfl
                   (fst (ensureDeliveryTasks (workflowOr (c_workflow contract))
                           (productNames (ui_contractsMap u) (ui_contractsByEmail u) v) g)))"
proof -
  let ?cm = "ui_contractsMap u" and ?ce = "ui_contractsByEmail u"
  let ?f = "\<lambda>d. d\<lparr>o_workflow := Some wfl\<rparr>"
  have idf: "\<And>x. o_id (?f x) = o_id x" by simp
  from updateOrder_Some[OF assms(3), of ?f] obtain db1 where
    db1: "updateOrder db (o_id v) ?f = Some db1" by blast
  note u1 = getOrder_updated[OF db1 idf]
  have c1: "getContract db1 cid = Some contract" using u1(3)[of cid] assms(5) by simp
  let ?s = "syncContract ?cm ?ce v wfl cid db1 g"
  let ?db2 = "fst ?s"
  note s2 = syncContract_Some[OF c1, of ?cm ?ce v wfl g]
  have o2: "getOrder ?db2 (o_id v) = Some (?f d)"
    using getOrder_ordersCol[OF s2(2), of "o_id v"] u1(1) assms(3) by simp
  let ?db3 = "fst (snd (fetchOrders e ?db2 (snd ?s)))"
  have r0: "saveWorkflow e u db g
              = Inr ((u\<lparr>ui_orders := fst (fetchOrders e ?db2 (snd ?s))\<rparr>), ?db3,
                     snd (snd (fetchOrders e ?db2 (snd ?s))))"
    unfolding saveWorkflow_def Let_def
    by (simp add: assms(1,2,4) db1 case_prod_beta)
  have r: "savedDb e u db g = ?db3"
    unfolding savedDb_def r0 by (simp add: case_prod_beta)
  have "persistedOrderWorkflow ?db3 (o_id v) = Some wfl"
    unfolding persistedOrderWorkflow_def using fetchOrders_keeps(3)[OF o2] by simp
  moreover have "persistedContractWorkflow ?db3 cid
               = Some (mergeDelivery wfl
                   (fst (ensureDeliveryTasks (workflowOr (c_workflow contract))
                           (productNames ?cm ?ce v) g)))"
    unfolding persistedContractWorkflow_def fetchOrders_keeps(1) s2(1) by simp
  moreover have "\<exists>u' g'. saveWorkflow e u db g = Inr (u', savedDb e u db g, g')"
    unfolding r by (intro exI, rule r0)
  ultimately show ?thesis unfolding r by simp
qed

lemma toggleTask_result:
  assumes "ui_viewing u = Some v" and "ui_workflow u = Some wfl"
      and "getOrder db (o_id v) = Some d"
      and "targetContractId (ui_contractsMap u) (ui_contractsByEmail u) v = Some cid"
      and "getContract db cid = Some contract"
      and "\<not> startsWith (o_id v) ''contract-''"
  shows "persistedOrderWorkflow (fst (snd (toggleTask ci ti checked u db g))) (o_id v)
           = Some (updatedWorkflow ci ti checked wfl)
       \<and> persistedContractWorkflow (fst (snd (toggleTask ci ti checked u db g))) cid
           = Some (mergeDelivery (updatedWorkflow ci ti checked wfl)
                   (fst (ensureDeliveryTasks (workflowOr (c_workflow contract))
                           (productNames (ui_contractsMap u) (ui_contractsByEmail u) v) g)))"
proof -
  let ?cm = "ui_contractsMap u" and ?ce = "ui_contractsByEmail u"
  let ?upd = "updatedWorkflow ci ti checked wfl"
  let ?f = "\<lambda>d. d\<lparr>o_workflow := Some ?upd\<rparr>"
  have idf: "\<And>x. o_id (?f x) = o_id x" by simp
  from updateOrder_Some[OF assms(3), of ?f] obtain db1 where
    db1: "updateOrder db (o_id v) ?f = Some db1" by blast
  note u1 = getOrder_updated[OF db1 idf]
  have c1: "getContract db1 cid = Some contract" using u1(3)[of cid] assms(5) by simp
  let ?s = "syncContract ?cm ?ce v ?upd cid db1 g"
  note s2 = syncContract_Some[OF c1, of ?cm ?ce v ?upd g]
  have o2: "getOrder (fst ?s) (o_id v) = Some (?f d)"
    using getOrder_ordersCol[OF s2(2), of "o_id v"] u1(1) assms(3) by simp
  have r: "fst (snd (toggleTask ci ti checked u db g)) = fst ?s"
    unfolding toggleTask_def Let_def
    by (simp add: assms(1,2,4,6) db1 case_prod_beta)
  show ?thesis
    unfolding r persistedOrderWorkflow_def persistedContractWorkflow_def o2 s2(1) by simp
qed



lemma saved_twin:
  "persistedOrderWorkflow (savedDb sampleEnv twinUi letterDb sampleUids) ''o1'' = Some twinTasks"
  "persistedContractWorkflow (savedDb sampleEnv twinUi letterDb sampleUids) ''c1''
     = Some [\<lparr>cat_id = ''uid'', cat_name = ''Entrega de productos'',
               tasks = [plainTask ''uidx'' ''Entregar A'' True]\<rparr>]"
  by code_simp+

text \<open>
  Claim C6, as stated, fails for a reachable pair of workflows. The staged
  delivery category of the open order holds the tasks "Entregar A" (done) and
  "entregar a" (not done), which the edit mode allows. After \<^verbatim>\<open>saveWorkflow\<close> the
  order document holds both, and the contract's delivery category holds the one
  task "Entregar A", done: it has the title of the order's second task and not
  its flag.
\<close>

theorem saveWorkflow_twin_titles:
  "doneFlags (deliveryTasks (workflowOr (persistedOrderWorkflow
       (savedDb sampleEnv twinUi letterDb sampleUids) ''o1'')))
     = [(''Entregar A'', True), (''entregar a'', False)]
   \<and> doneFlags (deliveryTasks (workflowOr (persistedContractWorkflow
       (savedDb sampleEnv twinUi letterDb sampleUids) ''c1'')))
     = [(''Entregar A'', True)]
   \<and> \<not> sameFlags
        (workflowOr (persistedOrderWorkflow (savedDb sampleEnv twinUi letterDb sampleUids) ''o1''))
        (workflowOr (persistedContractWorkflow (savedDb sampleEnv twinUi letterDb sampleUids) ''c1''))"
  unfolding saved_twin by code_simp

text \<open>
  Claim C6, amended. Let an order be open whose document exists and whose
  identifier does not start with "contract-", let its staged workflow be \<open>wfl\<close>, and
  let the handlers' contract resolution (explicit \<^verbatim>\<open>contractId\<close>, else the customer
  email) give an existing contract. Let \<open>M\<close> be that contract's workflow after
  \<^verbatim>\<open>ensureDeliveryTasks\<close> with the names of the order's display items. Then
  \<^verbatim>\<open>saveWorkflow\<close> succeeds and stores \<open>wfl\<close> in the order and \<open>mergeDelivery wfl M\<close> in
  the contract, and a checkbox toggle stores the updated workflow in the order and
  its merge in the contract. In the stored contract workflow every task of a
  delivery category whose normalized title occurs in the first delivery category
  of the stored order workflow has the done flag of the first order task with
  that title; a task without such a match keeps the flag it has in \<open>M\<close>, and all
  other fields and categories of \<open>M\<close> are kept.
\<close>

theorem delivery_flags_mirrored:
  assumes "ui_viewing u = Some v" and "ui_workflow u = Some wfl"
      and "getOrder db (o_id v) = Some d"
      and "targetContractId (ui_contractsMap u) (ui_contractsByEmail u) v = Some cid"
      and "getContract db cid = Some contract"
      and "\<not> startsWith (o_id v) ''contract-''"
      and "M = fst (ensureDeliveryTasks (workflowOr (c_workflow contract))
                      (productNames (ui_contractsMap u) (ui_contractsByEmail u) v) g)"
  shows "(\<exists>u' g'. saveWorkflow e u db g = Inr (u', savedDb e u db g, g'))
     \<and> persistedOrderWorkflow (savedDb e u db g) (o_id v) = Some wfl
     \<and> persistedContractWorkflow (savedDb e u db g) cid = Some (mergeDelivery wfl M)
     \<and> mirrored wfl (mergeDelivery wfl M)
     \<and> (\<forall>ci ti checked.
           persistedOrderWorkflow (fst (snd (toggleTask ci ti checked u db g))) (o_id v)
             = Some (updatedWorkflow ci ti checked wfl)
         \<and> persistedContractWorkflow (fst (snd (toggleTask ci ti checked u db g))) cid
             = Some (mergeDelivery (updatedWorkflow ci ti checked wfl) M)
         \<and> mirrored (updatedWorkflow ci ti checked wfl)
               (mergeDelivery (updatedWorkflow ci ti checked wfl) M))
     \<and> (\<forall>w. mergeDelivery w M
              = map (\<lambda>cat. if isDelivery cat
                            then cat\<lparr>tasks := map (copyDone (deliveryTasks w)) (tasks cat)\<rparr>
                            else cat) M)
     \<and> (\<forall>ots t. copyDone ots t
              = t\<lparr>task_done :=
                    (case find (\<lambda>ot. normalize (title ot) = normalize (title t)) ots of
                       Some m \<Rightarrow> task_done m | None \<Rightarrow> task_done t)\<rparr>)"
proof -
  have c: "copyDone ots t
              = t\<lparr>task_done :=
                    (case find (\<lambda>ot. normalize (title ot) = normalize (title t)) ots of
                       Some m \<Rightarrow> task_done m | None \<Rightarrow> task_done t)\<rparr>" for ots t
    by (simp add: copyDone_def split: option.splits)
  show ?thesis
    unfolding assms(7)
    using saveWorkflow_result[OF assms(1-5), of e g] toggleTask_result[OF assms(1-6), of _ _ _ g]
      mirrored_mergeDelivery mergeDelivery_eq c
    by simp
qed


theorem delivery_flags_mirrored_witness:
  "persistedOrderWorkflow (savedDb sampleEnv twinUi letterDb sampleUids) ''o1'' = Some twinTasks
   \<and> mirrored twinTasks
        (workflowOr (persistedContractWorkflow (savedDb sampleEnv twinUi letterDb sampleUids) ''c1''))"
proof -
  have h: "ui_viewing twinUi = Some letterOrder" "ui_workflow twinUi = Some twinTasks"
      "getOrder letterDb (o_id letterOrder) = Some letterOrder"
      "targetContractId (ui_contractsMap twinUi) (ui_contractsByEmail twinUi) letterOrder = Some ''c1''"
      "getContract letterDb ''c1'' = Some letterContract"
      "\<not> startsWith (o_id letterOrder) ''contract-''"
    by (simp_all add: twinUi_def emptyUi_def letterDb_def getOrder_def getContract_def
          letterOrder_def emptyOrder_def letterContract_def emptyContract_def targetContractId_def)
  have i: "o_id letterOrder = ''o1''" by (simp add: letterOrder_def emptyOrder_def)
  note t = delivery_flags_mirrored[OF h refl, where g = sampleUids and e = sampleEnv, unfolded i]
  note a = t[THEN conjunct2, THEN conjunct1]
  note b = t[THEN conjunct2, THEN conjunct2, THEN conjunct1]
  note c = t[THEN conjunct2, THEN conjunct2, THEN conjunct2, THEN conjunct1]
  have "workflowOr (persistedContractWorkflow (savedDb sampleEnv twinUi letterDb sampleUids) ''c1'')
          = mergeDelivery twinTasks
              (fst (ensureDeliveryTasks (workflowOr (c_workflow letterContract))
                 (productNames (ui_contractsMap twinUi) (ui_contractsByEmail twinUi) letterOrder)
                 sampleUids))"
    unfolding b by (simp add: workflowOr_def)
  with a c show ?thesis by simp
qed

section \<open>Properties of the payment toggle\<close>


















section \<open>\<open>ensureDeliveryTasks\<close> changes only the arrays it builds\<close>

text \<open>
  The function on the store computes what the function on values computes: the
  array it returns is new, it holds the workflow that \<^const>\<open>ensureDeliveryTasks\<close>
  returns, and no cell that was in the store before the call is changed.
\<close>

lemma parseCategories_layout:
  "parseCategories s w = (layout (length s) w, s @ map (\<lambda>c. TaskArr (tasks c)) w)"
proof (induction w arbitrary: s)
  case Nil
  then show ?case by (simp add: layout_def)
next
  case (Cons c w)
  show ?case
    by (simp add: alloc_def Cons.IH layout_def map_cloneTask_id)
qed

lemma parseWorkflow_layout:
  "parseWorkflow s w =
     (length s + length w,
      s @ map (\<lambda>c. TaskArr (tasks c)) w @ [CatArr (layout (length s) w)])"
  by (simp add: parseWorkflow_def parseCategories_layout alloc_def)

lemma those_nth:
  assumes "length xs = length ys" "\<And>k. k < length ys \<Longrightarrow> f (xs ! k) = Some (ys ! k)"
  shows "those (map f xs) = Some ys"
  using assms
proof (induction xs arbitrary: ys)
  case Nil
  then show ?case by simp
next
  case (Cons x xs)
  then obtain y ys' where ys: "ys = y # ys'" by (cases ys) auto
  have "f x = Some y" using Cons.prems(2)[of 0] ys by simp
  moreover have "those (map f xs) = Some ys'"
  proof (rule Cons.IH)
    show "length xs = length ys'" using Cons.prems(1) ys by simp
    show "f (xs ! k) = Some (ys' ! k)" if "k < length ys'" for k
      using Cons.prems(2)[of "Suc k"] that ys by simp
  qed
  ultimately show ?case using ys by simp
qed

lemma layout_nth:
  "k < length w \<Longrightarrow> layout off w ! k = (cat_id (w ! k), cat_name (w ! k), off + k)"
  by (simp add: layout_def nth_enumerate_eq)

lemma layout_length [simp]: "length (layout off w) = length w"
  by (simp add: layout_def)

lemma read_layout:
  assumes "catsAt S a = Some cats" "length cats = length V"
      and "\<And>k. k < length V \<Longrightarrow> \<exists>ta. cats ! k = (cat_id (V ! k), cat_name (V ! k), ta)
                                    \<and> tasksAt S ta = Some (tasks (V ! k))"
  shows "readWorkflow S a = Some V"
proof -
  have "readCategory S (cats ! k) = Some (V ! k)" if "k < length V" for k
  proof -
    from assms(3)[OF that] obtain ta where
      "cats ! k = (cat_id (V ! k), cat_name (V ! k), ta)" "tasksAt S ta = Some (tasks (V ! k))"
      by blast
    then show ?thesis by (simp add: readCategory_def)
  qed
  from those_nth[OF assms(2) this] show ?thesis
    by (simp add: readWorkflow_def assms(1))
qed

lemma pushLoop_eq:
  assumes "tasksAt S ta = Some ts"
  shows "pushLoop ns ta S g
           = (S[ta := TaskArr (fst (pushDeliveryTasks ns ts g))], snd (pushDeliveryTasks ns ts g))"
  using assms
proof (induction ns arbitrary: S ts g)
  case Nil
  from Nil have "ta < length S" "S ! ta = TaskArr ts"
    by (auto simp: tasksAt_def split: if_splits cell.splits)
  then show ?case using list_update_id[of S ta] by simp
next
  case (Cons n ns)
  from Cons.prems have ta: "ta < length S"
    by (auto simp: tasksAt_def split: if_splits)
  show ?case
  proof (cases "hasTitle ts (deliveryTitle n)")
    case True
    then show ?thesis using Cons.IH[OF Cons.prems] Cons.prems by (simp add: push_Cons Let_def)
  next
    case False
    let ?ts = "ts @ [newTask (g 0) (deliveryTitle n)]"
    have "tasksAt (S[ta := TaskArr ?ts]) ta = Some ?ts"
      using ta by (simp add: tasksAt_def)
    from Cons.IH[OF this] False Cons.prems show ?thesis
      by (simp add: push_Cons uid_def Let_def)
  qed
qed


lemma tasksAt_append_old: "a < length s \<Longrightarrow> tasksAt (s @ xs) a = tasksAt s a"
  by (simp add: tasksAt_def nth_append)

lemma isDeliveryEntry_layout:
  "findIndex isDeliveryEntry (layout off w) = findIndex isDelivery w"
proof -
  have "findIndex isDeliveryEntry (map (\<lambda>(k, c). (cat_id c, cat_name c, k)) (enumerate off w))
          = findIndex isDelivery w" for off
    by (induction w arbitrary: off) (simp_all add: isDeliveryEntry_def isDelivery_def)
  then show ?thesis by (simp add: layout_def)
qed

lemma ensureOn_result:
  assumes "readWorkflow s base = Some W"
  shows "\<exists>s'. ensureDeliveryTasksOn s base N g
            = Some (length s + length W, s', snd (ensureDeliveryTasks W N g))
         \<and> length s \<le> length s'
         \<and> (\<forall>a<length s. s' ! a = s ! a)
         \<and> readWorkflow s' (length s + length W) = Some (fst (ensureDeliveryTasks W N g))"
proof -
  let ?off = "length s"
  let ?cl = "length s + length W"
  let ?s1 = "s @ map (\<lambda>c. TaskArr (tasks c)) W @ [CatArr (layout ?off W)]"
  have len1: "length ?s1 = Suc ?cl" by simp
  have cats1: "catsAt ?s1 ?cl = Some (layout ?off W)"
    by (simp add: catsAt_def nth_append)
  have t1: "tasksAt ?s1 (?off + k) = Some (tasks (W ! k))" if "k < length W" for k
    using that by (simp add: tasksAt_def nth_append)
  show ?thesis
  proof (cases "findIndex isDelivery W")
    case (Some idx)
    then have idx: "idx < length W" using findIndex_Some by blast
    let ?ts = "fst (pushDeliveryTasks N (tasks (W ! idx)) g)"
    let ?V = "W[idx := (W ! idx)\<lparr>tasks := ?ts\<rparr>]"
    let ?s2 = "?s1[?off + idx := TaskArr ?ts]"
    let ?s' = "?s2[?cl := CatArr (layout ?off W)]"
    have cat: "layout ?off W ! idx = (cat_id (W ! idx), cat_name (W ! idx), ?off + idx)"
      using idx by (rule layout_nth)
    have pl: "pushLoop N (?off + idx) ?s1 g = (?s2, snd (pushDeliveryTasks N (tasks (W ! idx)) g))"
      by (rule pushLoop_eq[OF t1[OF idx]])
    have cats2: "catsAt ?s2 ?cl = Some (layout ?off W)"
      using idx by (simp add: catsAt_def nth_append nth_list_update)
    have upd: "(layout ?off W)[idx := (cat_id (W ! idx), cat_name (W ! idx), ?off + idx)]
                 = layout ?off W"
      using list_update_id[of "layout ?off W" idx] unfolding cat .
    have res: "ensureDeliveryTasksOn s base N g
                 = Some (?cl, ?s', snd (pushDeliveryTasks N (tasks (W ! idx)) g))"
      unfolding ensureDeliveryTasksOn_def assms option.case parseWorkflow_layout prod.case cats1
        Let_def isDeliveryEntry_layout Some cat snd_conv pl cats2 upd
      by (rule refl)
    have g': "snd (ensureDeliveryTasks W N g) = snd (pushDeliveryTasks N (tasks (W ! idx)) g)"
      by (rule ensure_snd_Some[OF Some])
    have old: "\<forall>a<length s. ?s' ! a = s ! a"
      by (simp add: nth_append nth_list_update)
    have catsS: "catsAt ?s' ?cl = Some (layout ?off W)"
      by (simp add: catsAt_def)
    have rd: "readWorkflow ?s' ?cl = Some ?V"
    proof (rule read_layout[OF catsS])
      show "length (layout ?off W) = length ?V" by simp
      show "\<exists>ta. layout ?off W ! k = (cat_id (?V ! k), cat_name (?V ! k), ta)
                  \<and> tasksAt ?s' ta = Some (tasks (?V ! k))" if "k < length ?V" for k
      proof -
        from that have k: "k < length W" by simp
        have "tasksAt ?s' (?off + k) = Some (tasks (?V ! k))"
          using k idx by (simp add: tasksAt_def nth_append nth_list_update)
        moreover have "layout ?off W ! k = (cat_id (?V ! k), cat_name (?V ! k), ?off + k)"
          using k idx by (simp add: layout_nth nth_list_update)
        ultimately show ?thesis by blast
      qed
    qed
    show ?thesis
      unfolding res g' ensure_Some[OF Some] using old rd by (intro exI[of _ ?s']) simp
  next
    case None
    let ?ts = "fst (pushDeliveryTasks N [] (\<lambda>k. g (Suc k)))"
    let ?new = "\<lparr>cat_id = g 0, cat_name = ''Entrega de productos'', tasks = ?ts\<rparr>"
    let ?V = "W @ [?new]"
    let ?ta = "Suc ?cl"
    let ?cat = "(g 0, ''Entrega de productos'', ?ta)"
    let ?s2 = "?s1 @ [TaskArr []]"
    let ?s3 = "?s2[?cl := CatArr (layout ?off W @ [?cat])]"
    let ?s4 = "?s3[?ta := TaskArr ?ts]"
    let ?s' = "?s4[?cl := CatArr (layout ?off W @ [?cat])]"
    have t3: "tasksAt ?s3 ?ta = Some []"
      by (simp add: tasksAt_def nth_append)
    have pl: "pushLoop N ?ta ?s3 (\<lambda>k. g (Suc k)) = (?s4, snd (pushDeliveryTasks N [] (\<lambda>k. g (Suc k))))"
      by (rule pushLoop_eq[OF t3])
    have cats4: "catsAt ?s4 ?cl = Some (layout ?off W @ [?cat])"
      by (simp add: catsAt_def nth_append)
    have upd: "(layout ?off W @ [?cat])[length (layout ?off W) := ?cat] = layout ?off W @ [?cat]"
      by (simp add: list_update_append)
    have al: "alloc ?s1 (TaskArr []) = (?ta, ?s2)" by (simp add: alloc_def)
    have res: "ensureDeliveryTasksOn s base N g
                 = Some (?cl, ?s', snd (pushDeliveryTasks N [] (\<lambda>k. g (Suc k))))"
      unfolding ensureDeliveryTasksOn_def assms option.case parseWorkflow_layout prod.case cats1
        Let_def isDeliveryEntry_layout None uid_def al pl cats4 upd
      by (rule refl)
    have g': "snd (ensureDeliveryTasks W N g) = snd (pushDeliveryTasks N [] (\<lambda>k. g (Suc k)))"
      using None unfolding ensureDeliveryTasks_def Let_def uid_def jsonClone_id
      by (simp only: option.case case_prod_conv) (simp add: case_prod_beta)
    have old: "\<forall>a<length s. ?s' ! a = s ! a"
      by (simp add: nth_append nth_list_update)
    have catsS: "catsAt ?s' ?cl = Some (layout ?off W @ [?cat])"
      by (simp add: catsAt_def)
    have rd: "readWorkflow ?s' ?cl = Some ?V"
    proof (rule read_layout[OF catsS])
      show "length (layout ?off W @ [?cat]) = length ?V" by simp
      show "\<exists>ta. (layout ?off W @ [?cat]) ! k = (cat_id (?V ! k), cat_name (?V ! k), ta)
                  \<and> tasksAt ?s' ta = Some (tasks (?V ! k))" if "k < length ?V" for k
      proof (cases "k < length W")
        case True
        have "tasksAt ?s' (?off + k) = Some (tasks (?V ! k))"
          using True by (simp add: tasksAt_def nth_append nth_list_update)
        moreover have "(layout ?off W @ [?cat]) ! k = (cat_id (?V ! k), cat_name (?V ! k), ?off + k)"
          using True by (simp add: layout_nth nth_append)
        ultimately show ?thesis by blast
      next
        case False
        with that have k: "k = length W" by simp
        have "tasksAt ?s' ?ta = Some (tasks (?V ! k))"
          unfolding k by (simp add: tasksAt_def nth_append nth_list_update)
        moreover have "(layout ?off W @ [?cat]) ! k = (cat_id (?V ! k), cat_name (?V ! k), ?ta)"
          unfolding k by (simp add: nth_append)
        ultimately show ?thesis by blast
      qed
    qed
    show ?thesis
      unfolding res g' ensure_None[OF None] using old rd by (intro exI[of _ ?s']) simp
  qed
qed


lemma those_Some_all: "those xs = Some ys \<Longrightarrow> None \<notin> set xs"
  by (induction xs arbitrary: ys) (auto split: option.splits)

lemma read_stable:
  assumes "readWorkflow s base = Some W" "length s \<le> length s'" "\<forall>a<length s. s' ! a = s ! a"
  shows "readWorkflow s' base = Some W"
proof -
  from assms(1) obtain cats where cats: "catsAt s base = Some cats"
      "those (map (readCategory s) cats) = Some W"
    by (auto simp: readWorkflow_def split: option.splits)
  from cats(1) have b: "base < length s" by (auto simp: catsAt_def split: if_splits)
  with assms(2,3) cats(1) have c': "catsAt s' base = Some cats"
    by (auto simp: catsAt_def)
  have "readCategory s' x = readCategory s x" if "x \<in> set cats" for x
  proof -
    obtain i n ta where x: "x = (i, n, ta)" by (cases x)
    from those_Some_all[OF cats(2)] that have "readCategory s x \<noteq> None" by force
    then have "ta < length s"
      unfolding x by (auto simp: readCategory_def tasksAt_def split: if_splits)
    with assms(2,3) have "tasksAt s' ta = tasksAt s ta" by (auto simp: tasksAt_def)
    then show ?thesis unfolding x by (simp add: readCategory_def)
  qed
  then have m: "map (readCategory s') cats = map (readCategory s) cats" by simp
  show ?thesis unfolding readWorkflow_def c' option.case m by (rule cats(2))
qed

lemma ensure_positions:
  "length W \<le> length (fst (ensureDeliveryTasks W N g))
   \<and> (\<forall>i<length W.
         cat_id (fst (ensureDeliveryTasks W N g) ! i) = cat_id (W ! i)
       \<and> cat_name (fst (ensureDeliveryTasks W N g) ! i) = cat_name (W ! i)
       \<and> take (length (tasks (W ! i))) (tasks (fst (ensureDeliveryTasks W N g) ! i)) = tasks (W ! i))"
proof (cases "findIndex isDelivery W")
  case None
  show ?thesis unfolding ensure_append_only None by (simp add: nth_append)
next
  case (Some idx)
  have "cat_id (W[idx := c] ! i) = cat_id (W ! i) \<and> cat_name (W[idx := c] ! i) = cat_name (W ! i)
      \<and> take (length (tasks (W ! i))) (tasks (W[idx := c] ! i)) = tasks (W ! i)"
    if "i < length W" and c: "c = (W ! idx)\<lparr>tasks := tasks (W ! idx) @ xs\<rparr>" for i c xs
  proof (cases "i = idx")
    case True
    with that show ?thesis by simp
  next
    case False
    then show ?thesis by simp
  qed
  then show ?thesis unfolding ensure_append_only Some by simp
qed

text \<open>
  Claim C9. \<open>ensureDeliveryTasks\<close> only appends, and it leaves its argument alone.
  Called on the array at \<open>base\<close> holding the workflow \<open>W\<close>, it returns a new array
  \<open>cloned\<close>; every array of the store before the call still has its contents, so
  the argument still holds \<open>W\<close>; the returned array holds the result of the
  function on values. That result is \<open>W\<close> with the created tasks appended to the
  tasks of its first delivery category or, when it has none, with a category
  \<^verbatim>\<open>Entrega de productos\<close> appended that holds the created tasks; every created task
  is not done and has no due date and no note. So every category of \<open>W\<close> is at its
  position in the result with its identifier and name, and its tasks are the first
  tasks of that category in the result, unchanged.
\<close>

theorem ensureDeliveryTasks_frame:
  assumes "readWorkflow s base = Some W"
  shows "\<exists>cloned s' g'. ensureDeliveryTasksOn s base N g = Some (cloned, s', g')
      \<and> length s \<le> cloned
      \<and> (\<forall>a<length s. s' ! a = s ! a)
      \<and> readWorkflow s' base = Some W
      \<and> readWorkflow s' cloned = Some (fst (ensureDeliveryTasks W N g))
      \<and> g' = snd (ensureDeliveryTasks W N g)
      \<and> fst (ensureDeliveryTasks W N g)
          = (case findIndex isDelivery W of
               Some i \<Rightarrow> W[i := (W ! i)\<lparr>tasks := tasks (W ! i) @ createdTasks W N g\<rparr>]
             | None \<Rightarrow> W @ [\<lparr>cat_id = fst (uid g), cat_name = ''Entrega de productos'',
                               tasks = createdTasks W N g\<rparr>])
      \<and> (\<forall>t\<in>set (createdTasks W N g). \<not> task_done t \<and> due t = Absent \<and> task_note t = None)
      \<and> length W \<le> length (fst (ensureDeliveryTasks W N g))
      \<and> (\<forall>i<length W.
            cat_id (fst (ensureDeliveryTasks W N g) ! i) = cat_id (W ! i)
          \<and> cat_name (fst (ensureDeliveryTasks W N g) ! i) = cat_name (W ! i)
          \<and> take (length (tasks (W ! i))) (tasks (fst (ensureDeliveryTasks W N g) ! i))
              = tasks (W ! i))"
proof -
  from ensureOn_result[OF assms, of N g] obtain s' where
    s': "ensureDeliveryTasksOn s base N g
            = Some (length s + length W, s', snd (ensureDeliveryTasks W N g))"
        "length s \<le> length s'" "\<forall>a<length s. s' ! a = s ! a"
        "readWorkflow s' (length s + length W) = Some (fst (ensureDeliveryTasks W N g))"
    by blast
  have st: "readWorkflow s' base = Some W"
    by (rule read_stable[OF assms s'(2,3)])
  have cr: "\<forall>t\<in>set (createdTasks W N g). \<not> task_done t \<and> due t = Absent \<and> task_note t = None"
    using createdTasks_spec[of W N g] by blast
  show ?thesis
    using s' st cr ensure_append_only[of W N g] ensure_positions[of W N g]
    by (intro exI[of _ "length s + length W"] exI[of _ s']
          exI[of _ "snd (ensureDeliveryTasks W N g)"]) simp
qed

theorem ensureDeliveryTasks_frame_witness:
  "map_option (\<lambda>(cloned, s', g'). (readWorkflow s' 2, take 3 s'))
      (ensureDeliveryTasksOn sampleStore 2 [''A'', ''B''] sampleUids)
     = Some (Some sampleWorkflow, sampleStore)"
proof -
  have r: "readWorkflow sampleStore 2 = Some sampleWorkflow" by code_simp
  from ensureDeliveryTasks_frame[OF r, of "[''A'', ''B'']" sampleUids] obtain cloned s' g' where
    h: "ensureDeliveryTasksOn sampleStore 2 [''A'', ''B''] sampleUids = Some (cloned, s', g')"
       "\<forall>a<length sampleStore. s' ! a = sampleStore ! a"
       "readWorkflow s' 2 = Some sampleWorkflow"
       "readWorkflow s' cloned = Some (fst (ensureDeliveryTasks sampleWorkflow [''A'', ''B''] sampleUids))"
    by blast
  have l: "length sampleStore = 3" by (simp add: sampleStore_def)
  from h(4) have "cloned < length s'"
    by (auto simp: readWorkflow_def catsAt_def split: option.splits if_splits)
  moreover from h(1) have "length sampleStore \<le> cloned"
    using ensureDeliveryTasks_frame[OF r, of "[''A'', ''B'']" sampleUids] by auto
  ultimately have "3 \<le> length s'" using l by simp
  with h(2) l have "take 3 s' = sampleStore"
    by (intro nth_equalityI) auto
  with h(1,3) show ?thesis by simp
qed

end
